theory Spec2Isabelle
  imports Main "HOL-Library.Word"
begin

unbundle bit_operations_syntax

section \<open>Types and macros of \<^verbatim>\<open>bitset.h\<close>\<close>

text \<open>
  The library is written for an LP64 target: \<^verbatim>\<open>bitset_atom_t\<close> is \<^verbatim>\<open>uint64_t\<close>,
  the atoms are handed to \<^verbatim>\<open>__builtin_popcountl\<close> and \<^verbatim>\<open>__builtin_ctzl\<close>, so
  \<^verbatim>\<open>unsigned long\<close> and \<^verbatim>\<open>size_t\<close> are 64 bits wide and \<^verbatim>\<open>int\<close> is 32 bits wide.
  \<^verbatim>\<open>bit_t\<close> is \<^verbatim>\<open>unsigned char\<close>.
\<close>

type_synonym bitset_atom_t = "64 word"
type_synonym size_t = "64 word"
type_synonym bit_t = "8 word"
type_synonym c_int = "32 word"

text \<open>\<^verbatim>\<open>#define BITSET_ATOM_MAX UINT64_MAX\<close>\<close>

definition BITSET_ATOM_MAX :: bitset_atom_t where
  "BITSET_ATOM_MAX = - 1"

text \<open>\<^verbatim>\<open>#define BITS_PER_ATOM (sizeof(bitset_atom_t) * 8)\<close>, a \<^verbatim>\<open>size_t\<close>.\<close>

definition BITS_PER_ATOM :: size_t where
  "BITS_PER_ATOM = 8 * 8"

text \<open>
  \<^verbatim>\<open>#define BITS_TO_NATOMS(_bits) ((_bits / BITS_PER_ATOM) + ((_bits % BITS_PER_ATOM) != 0))\<close>
\<close>

definition BITS_TO_NATOMS :: "size_t \<Rightarrow> size_t" where
  "BITS_TO_NATOMS n = n div BITS_PER_ATOM + (if n mod BITS_PER_ATOM \<noteq> 0 then 1 else 0)"

text \<open>
  \<^verbatim>\<open>typedef struct bitset { size_t nbits; size_t natoms; bitset_atom_t *bits; } bitset_t;\<close>
  The pointer \<^verbatim>\<open>bits\<close> is \<open>None\<close> for \<^verbatim>\<open>NULL\<close> and \<open>Some p\<close> for the address \<open>p\<close> of a
  block handed out by the allocator.
\<close>

record bitset_t =
  nbits :: size_t
  natoms :: size_t
  bits :: "nat option"


section \<open>Memory and undefined behaviour\<close>

text \<open>
  Every function of the library works through pointers: a \<^verbatim>\<open>bitset_t*\<close> to the struct,
  and the struct's \<^verbatim>\<open>bits\<close> pointer to a heap block of atoms. Memory is therefore an
  explicit store with two parts: the \<^verbatim>\<open>bitset_t\<close> objects by address, and the heap
  blocks by address, each block being the list of its atoms. Two structs may hold the same
  \<^verbatim>\<open>bits\<close> pointer, and one struct may be passed for several parameters.
\<close>

record mem =
  structs :: "nat \<Rightarrow> bitset_t option"
  blocks :: "nat \<Rightarrow> bitset_atom_t list option"

text \<open>
  What C leaves undefined, and a failed \<^verbatim>\<open>assert\<close> (the build does not define
  \<^verbatim>\<open>NDEBUG\<close>), is a fault of the model: the run stops there with no memory to speak of.
\<close>

datatype fault =
    Assert_Failed    \<comment> \<open>\<^verbatim>\<open>assert\<close> aborts the program\<close>
  | Bad_Pointer      \<comment> \<open>dereferencing \<^verbatim>\<open>NULL\<close>, a freed block or no object at all\<close>
  | Out_Of_Bounds    \<comment> \<open>indexing a block at or past its end\<close>
  | Bad_Shift        \<comment> \<open>shift count at least the width of the promoted left operand, or signed overflow of the shift\<close>
  | Ctz_Of_Zero      \<comment> \<open>\<^verbatim>\<open>__builtin_ctzl(0)\<close>\<close>
  | Overlapping_Copy \<comment> \<open>\<^verbatim>\<open>memcpy\<close> between overlapping objects\<close>

fun fbind :: "fault + 'a \<Rightarrow> ('a \<Rightarrow> fault + 'b) \<Rightarrow> fault + 'b" where
  "fbind (Inl e) f = Inl e"
| "fbind (Inr v) f = f v"

definition c_assert :: "bool \<Rightarrow> fault + unit" where
  "c_assert c = (if c then Inr () else Inl Assert_Failed)"

text \<open>Reading the struct behind a \<^verbatim>\<open>bitset_t*\<close>.\<close>

definition deref :: "mem \<Rightarrow> nat \<Rightarrow> fault + bitset_t" where
  "deref m bs = (case structs m bs of None \<Rightarrow> Inl Bad_Pointer | Some s \<Rightarrow> Inr s)"

text \<open>The block a \<^verbatim>\<open>bits\<close> pointer points to.\<close>

definition block_of :: "mem \<Rightarrow> nat option \<Rightarrow> fault + bitset_atom_t list" where
  "block_of m q =
     (case q of
        None \<Rightarrow> Inl Bad_Pointer
      | Some p \<Rightarrow> (case blocks m p of None \<Rightarrow> Inl Bad_Pointer | Some buf \<Rightarrow> Inr buf))"

text \<open>\<^verbatim>\<open>q[i]\<close> as an rvalue.\<close>

definition load :: "mem \<Rightarrow> nat option \<Rightarrow> size_t \<Rightarrow> fault + bitset_atom_t" where
  "load m q i =
     fbind (block_of m q) (\<lambda>buf.
       if unat i < length buf then Inr (buf ! unat i) else Inl Out_Of_Bounds)"

text \<open>\<^verbatim>\<open>q[i] = v\<close>.\<close>

definition store :: "mem \<Rightarrow> nat option \<Rightarrow> size_t \<Rightarrow> bitset_atom_t \<Rightarrow> fault + mem" where
  "store m q i v =
     fbind (block_of m q) (\<lambda>buf.
       if unat i < length buf
       then Inr (m\<lparr>blocks := (blocks m)(the q \<mapsto> buf[unat i := v])\<rparr>)
       else Inl Out_Of_Bounds)"

text \<open>
  \<^verbatim>\<open>x << s\<close> with \<^verbatim>\<open>x\<close> an \<^verbatim>\<open>int\<close> (C99 6.5.7): undefined unless \<open>s < 32\<close>, \<open>x\<close> is
  non-negative and \<open>x * 2 ^ s\<close> is representable in \<^verbatim>\<open>int\<close>.
\<close>

definition shl_int :: "c_int \<Rightarrow> size_t \<Rightarrow> fault + c_int" where
  "shl_int x s =
     (if unat s < 32 \<and> 0 \<le> sint x \<and> sint x * 2 ^ unat s < 2 ^ 31
      then Inr (push_bit (unat s) x) else Inl Bad_Shift)"

text \<open>\<^verbatim>\<open>x << s\<close> and \<^verbatim>\<open>x >> s\<close> with \<^verbatim>\<open>x\<close> a \<^verbatim>\<open>uint64_t\<close>: undefined unless \<open>s < 64\<close>.\<close>

definition shl_atom :: "bitset_atom_t \<Rightarrow> size_t \<Rightarrow> fault + bitset_atom_t" where
  "shl_atom x s = (if unat s < 64 then Inr (push_bit (unat s) x) else Inl Bad_Shift)"

definition shr_atom :: "bitset_atom_t \<Rightarrow> size_t \<Rightarrow> fault + bitset_atom_t" where
  "shr_atom x s = (if unat s < 64 then Inr (drop_bit (unat s) x) else Inl Bad_Shift)"

text \<open>The usual arithmetic conversion of an \<^verbatim>\<open>int\<close> operand to \<^verbatim>\<open>uint64_t\<close>: sign extension.\<close>

definition int_to_atom :: "c_int \<Rightarrow> bitset_atom_t" where
  "int_to_atom x = scast x"


section \<open>Single bit manipulation\<close>

text \<open>
  \<^verbatim>\<open>void bitset_set(bitset_t* bs, size_t bit) {
      assert (bit < bs->nbits);
      bs->bits[bit / BITS_PER_ATOM] |= (1 << (bit & BITS_PER_ATOM));
  }\<close>
  The constant \<^verbatim>\<open>1\<close> is an \<^verbatim>\<open>int\<close>, and the shift count is \<^verbatim>\<open>bit & 64\<close>, that is 0 or 64.
\<close>

definition bitset_set :: "mem \<Rightarrow> nat \<Rightarrow> size_t \<Rightarrow> fault + mem" where
  "bitset_set m bs b =
     fbind (deref m bs) (\<lambda>s.
     fbind (c_assert (b < nbits s)) (\<lambda>_.
     fbind (shl_int 1 (b AND BITS_PER_ATOM)) (\<lambda>k.
     fbind (load m (bits s) (b div BITS_PER_ATOM)) (\<lambda>w.
       store m (bits s) (b div BITS_PER_ATOM) (w OR int_to_atom k)))))"

text \<open>
  \<^verbatim>\<open>void bitset_unset(bitset_t* bs, size_t bit) {
      assert (bit < bs->nbits);
      bs->bits[bit / BITS_PER_ATOM] &= ~(1 << (bit & BITS_PER_ATOM));
  }\<close>
\<close>

definition bitset_unset :: "mem \<Rightarrow> nat \<Rightarrow> size_t \<Rightarrow> fault + mem" where
  "bitset_unset m bs b =
     fbind (deref m bs) (\<lambda>s.
     fbind (c_assert (b < nbits s)) (\<lambda>_.
     fbind (shl_int 1 (b AND BITS_PER_ATOM)) (\<lambda>k.
     fbind (load m (bits s) (b div BITS_PER_ATOM)) (\<lambda>w.
       store m (bits s) (b div BITS_PER_ATOM) (w AND int_to_atom (NOT k))))))"

text \<open>
  The definition of \<^verbatim>\<open>bitset_get\<close> in the library's C file:
  \<^verbatim>\<open>bit_t bitset_get(const bitset_t* bs, size_t bit) {
      assert (bit < bs->nbits);
      return (bs->bits[bit / BITS_PER_ATOM] >> (bit & BITS_PER_ATOM)) & 1;
  }\<close>
\<close>

definition bitset_get :: "mem \<Rightarrow> nat \<Rightarrow> size_t \<Rightarrow> fault + bit_t" where
  "bitset_get m bs b =
     fbind (deref m bs) (\<lambda>s.
     fbind (c_assert (b < nbits s)) (\<lambda>_.
     fbind (load m (bits s) (b div BITS_PER_ATOM)) (\<lambda>w.
     fbind (shr_atom w (b AND BITS_PER_ATOM)) (\<lambda>x.
       Inr (ucast (x AND 1))))))"

text \<open>
  The inline definition of \<^verbatim>\<open>bitset_get\<close> in \<^verbatim>\<open>bitset.h\<close>, the one a program that includes
  the header may be compiled against:
  \<^verbatim>\<open>inline bit_t bitset_get(const bitset_t* bs, size_t bit) {
      assert (bit < bs->nbits);
      return bs->bits[bit / BITS_PER_ATOM] |= (1 << (bit & BITS_PER_ATOM));
  }\<close>
  The value of the assignment is the atom as stored, converted to \<^verbatim>\<open>unsigned char\<close>.
\<close>

definition bitset_get_inline :: "mem \<Rightarrow> nat \<Rightarrow> size_t \<Rightarrow> fault + (bit_t \<times> mem)" where
  "bitset_get_inline m bs b =
     fbind (deref m bs) (\<lambda>s.
     fbind (c_assert (b < nbits s)) (\<lambda>_.
     fbind (shl_int 1 (b AND BITS_PER_ATOM)) (\<lambda>k.
     fbind (load m (bits s) (b div BITS_PER_ATOM)) (\<lambda>w.
     fbind (store m (bits s) (b div BITS_PER_ATOM) (w OR int_to_atom k)) (\<lambda>m'.
       Inr (ucast (w OR int_to_atom k), m'))))))"

text \<open>
  \<^verbatim>\<open>void bitset_set_bit(bitset_t* bs, size_t idx, bit_t bit) {
      if (bitset_get(bs, idx)) { bitset_unset(bs, idx); } else { bitset_set(bs, idx); }
  }\<close>
  The parameter \<^verbatim>\<open>bit\<close> is never read. In the C file the call goes to the C file's
  \<^verbatim>\<open>bitset_get\<close>; the header's inline copy of \<^verbatim>\<open>bitset_set_bit\<close> has the same text over
  the header's \<^verbatim>\<open>bitset_get\<close>.
\<close>

definition bitset_set_bit :: "mem \<Rightarrow> nat \<Rightarrow> size_t \<Rightarrow> bit_t \<Rightarrow> fault + mem" where
  "bitset_set_bit m bs idx v =
     fbind (bitset_get m bs idx) (\<lambda>g.
       if g \<noteq> 0 then bitset_unset m bs idx else bitset_set m bs idx)"

definition bitset_set_bit_inline :: "mem \<Rightarrow> nat \<Rightarrow> size_t \<Rightarrow> bit_t \<Rightarrow> fault + mem" where
  "bitset_set_bit_inline m bs idx v =
     fbind (bitset_get_inline m bs idx) (\<lambda>(g, m').
       if g \<noteq> 0 then bitset_unset m' bs idx else bitset_set m' bs idx)"


section \<open>The allocator\<close>

text \<open>
  \<^verbatim>\<open>malloc\<close>, \<^verbatim>\<open>realloc\<close>, \<^verbatim>\<open>free\<close>, \<^verbatim>\<open>memset\<close> and \<^verbatim>\<open>memcpy\<close> belong to the C library,
  not to this repository. What the allocator answers is a parameter of the model: either
  \<^verbatim>\<open>NULL\<close>, or the address of a block together with the indeterminate values \<open>junk i\<close>
  that the words it did not fill happen to hold. Sizes are in bytes in C; a block of
  \<open>n\<close> bytes holds \<open>n div 8\<close> atoms. An allocator hands out an address at which no
  block lives; nothing proved below depends on it.
\<close>

datatype malloc_answer = Malloc_Null | Malloc_At nat "nat \<Rightarrow> bitset_atom_t"

definition atoms_of_bytes :: "size_t \<Rightarrow> nat" where
  "atoms_of_bytes n = unat n div 8"

definition libc_malloc :: "malloc_answer \<Rightarrow> mem \<Rightarrow> size_t \<Rightarrow> nat option \<times> mem" where
  "libc_malloc r m n =
     (case r of
        Malloc_Null \<Rightarrow> (None, m)
      | Malloc_At p junk \<Rightarrow>
          (Some p, m\<lparr>blocks := (blocks m)(p \<mapsto> map junk [0..<atoms_of_bytes n])\<rparr>))"

text \<open>\<^verbatim>\<open>memset(q, 0, n)\<close>\<close>

definition libc_memset_zero :: "mem \<Rightarrow> nat option \<Rightarrow> size_t \<Rightarrow> fault + mem" where
  "libc_memset_zero m q n =
     fbind (block_of m q) (\<lambda>buf.
       if atoms_of_bytes n \<le> length buf
       then Inr (m\<lparr>blocks := (blocks m)
                    (the q \<mapsto> replicate (atoms_of_bytes n) 0 @ drop (atoms_of_bytes n) buf)\<rparr>)
       else Inl Out_Of_Bounds)"

text \<open>\<^verbatim>\<open>free(q)\<close>; \<^verbatim>\<open>free(NULL)\<close> does nothing.\<close>

definition libc_free :: "mem \<Rightarrow> nat option \<Rightarrow> fault + mem" where
  "libc_free m q =
     (case q of
        None \<Rightarrow> Inr m
      | Some p \<Rightarrow>
          (case blocks m p of
             None \<Rightarrow> Inl Bad_Pointer
           | Some _ \<Rightarrow> Inr (m\<lparr>blocks := (blocks m)(p := None)\<rparr>)))"

text \<open>
  \<^verbatim>\<open>memcpy(d, s, n)\<close>: both blocks must hold \<open>n\<close> bytes and must not overlap.
\<close>

definition libc_memcpy :: "mem \<Rightarrow> nat option \<Rightarrow> nat option \<Rightarrow> size_t \<Rightarrow> fault + mem" where
  "libc_memcpy m d s n =
     fbind (block_of m d) (\<lambda>db.
     fbind (block_of m s) (\<lambda>sb.
       if length db < atoms_of_bytes n \<or> length sb < atoms_of_bytes n then Inl Out_Of_Bounds
       else if d = s \<and> 0 < atoms_of_bytes n then Inl Overlapping_Copy
       else Inr (m\<lparr>blocks := (blocks m)
                   (the d \<mapsto> take (atoms_of_bytes n) sb @ drop (atoms_of_bytes n) db)\<rparr>)))"

text \<open>
  \<^verbatim>\<open>realloc(q, n)\<close>. \<open>Realloc_Null\<close> is the allocation failure of C99 7.20.3.4: \<^verbatim>\<open>NULL\<close>
  is returned and the old block is neither freed nor changed. \<open>Realloc_At p junk\<close> is
  success: the block now lives at \<open>p\<close> (the old address or another one), keeps the old
  contents up to the smaller of the two sizes, and holds indeterminate values beyond.
  \<open>Realloc_Freed\<close> is the answer some C libraries give to a request for zero bytes: the
  old block is freed and \<^verbatim>\<open>NULL\<close> is returned; for a request of any other size it is
  the plain failure. \<^verbatim>\<open>realloc(NULL, n)\<close> is \<^verbatim>\<open>malloc(n)\<close>.
\<close>

datatype realloc_answer =
  Realloc_Null | Realloc_At nat "nat \<Rightarrow> bitset_atom_t" | Realloc_Freed

definition release :: "nat option \<Rightarrow> (nat \<Rightarrow> bitset_atom_t list option) \<Rightarrow> nat \<Rightarrow> bitset_atom_t list option" where
  "release q bl = (case q of None \<Rightarrow> bl | Some p \<Rightarrow> bl(p := None))"

definition libc_realloc ::
  "realloc_answer \<Rightarrow> mem \<Rightarrow> nat option \<Rightarrow> size_t \<Rightarrow> fault + (nat option \<times> mem)" where
  "libc_realloc r m q n =
     fbind (case q of None \<Rightarrow> Inr [] | Some _ \<Rightarrow> block_of m q) (\<lambda>old.
       case r of
         Realloc_Null \<Rightarrow> Inr (None, m)
       | Realloc_Freed \<Rightarrow>
           Inr (None, if n = 0 then m\<lparr>blocks := release q (blocks m)\<rparr> else m)
       | Realloc_At p junk \<Rightarrow>
           Inr (Some p,
                m\<lparr>blocks := (release q (blocks m))
                   (p \<mapsto> map (\<lambda>i. if i < length old then old ! i else junk i)
                            [0..<atoms_of_bytes n])\<rparr>))"


section \<open>Storage lifecycle\<close>

text \<open>\<^verbatim>\<open>sizeof(bitset_atom_t)\<close>\<close>

definition sizeof_atom :: size_t where
  "sizeof_atom = 8"

text \<open>
  \<^verbatim>\<open>int bitset_init(bitset_t* bs, size_t nbits) {
      bs->nbits = nbits;
      bs->natoms = BITS_TO_NATOMS(nbits);
      bs->bits  = malloc(bs->natoms * sizeof(bitset_atom_t));
      if (!bs->bits) { return -1; }
      memset(bs->bits, 0, bs->natoms * sizeof(bitset_atom_t));
      return 0;
  }\<close>
  \<^verbatim>\<open>bs\<close> must point to a \<^verbatim>\<open>bitset_t\<close> object, whatever its fields hold.
\<close>

definition bitset_init :: "malloc_answer \<Rightarrow> mem \<Rightarrow> nat \<Rightarrow> size_t \<Rightarrow> fault + (c_int \<times> mem)" where
  "bitset_init r m bs n =
     fbind (deref m bs) (\<lambda>_.
       let na = BITS_TO_NATOMS n;
           (q, m1) = libc_malloc r m (na * sizeof_atom);
           m2 = m1\<lparr>structs := (structs m1)(bs \<mapsto> \<lparr>nbits = n, natoms = na, bits = q\<rparr>)\<rparr>
       in if q = None then Inr (- 1, m2)
          else fbind (libc_memset_zero m2 q (na * sizeof_atom)) (\<lambda>m3. Inr (0, m3)))"

text \<open>\<^verbatim>\<open>void bitset_wipe(bitset_t* bs) { free(bs->bits); }\<close>\<close>

definition bitset_wipe :: "mem \<Rightarrow> nat \<Rightarrow> fault + mem" where
  "bitset_wipe m bs = fbind (deref m bs) (\<lambda>s. libc_free m (bits s))"

text \<open>
  \<^verbatim>\<open>void bitset_copy(bitset_t* dest, const bitset_t* src) {
      assert (dest->natoms == src->natoms);
      memcpy(dest->bits, src->bits, src->natoms * sizeof(bitset_atom_t));
  }\<close>
\<close>

definition bitset_copy :: "mem \<Rightarrow> nat \<Rightarrow> nat \<Rightarrow> fault + mem" where
  "bitset_copy m dest src =
     fbind (deref m dest) (\<lambda>d.
     fbind (deref m src) (\<lambda>s.
     fbind (c_assert (natoms d = natoms s)) (\<lambda>_.
       libc_memcpy m (bits d) (bits s) (natoms s * sizeof_atom))))"

text \<open>
  \<^verbatim>\<open>int bitset_resize(bitset_t* bitset, size_t nbits) {
      size_t new_natoms = BITS_TO_NATOMS(nbits);
      bitset_atom_t* new_bits = realloc(bitset->bits, new_natoms * sizeof(bitset_atom_t));
      if (!new_bits) { return -1; }
      bitset->nbits = nbits;
      bitset->natoms = new_natoms;
      bitset->bits = new_bits;
      return 0;
  }\<close>
\<close>

definition bitset_resize :: "realloc_answer \<Rightarrow> mem \<Rightarrow> nat \<Rightarrow> size_t \<Rightarrow> fault + (c_int \<times> mem)" where
  "bitset_resize r m bs n =
     fbind (deref m bs) (\<lambda>s.
       let new_natoms = BITS_TO_NATOMS n in
       fbind (libc_realloc r m (bits s) (new_natoms * sizeof_atom)) (\<lambda>(new_bits, m1).
         if new_bits = None then Inr (- 1, m1)
         else Inr (0, m1\<lparr>structs := (structs m1)
                        (bs \<mapsto> \<lparr>nbits = n, natoms = new_natoms, bits = new_bits\<rparr>)\<rparr>)))"


section \<open>Loops over the atoms\<close>

lemma fbind_cong [fundef_cong]:
  "x = y \<Longrightarrow> (\<And>v. y = Inr v \<Longrightarrow> f v = g v) \<Longrightarrow> fbind x f = fbind y g"
  by (cases y) simp_all

lemma unat_succ_less: "(i :: 64 word) < n \<Longrightarrow> unat (i + 1) = Suc (unat i)"
  by unat_arith

text \<open>
  \<^verbatim>\<open>#define bitset_atom_popcnt __builtin_popcountl\<close>: the compiler's builtin, the number
  of 1-bits of an \<^verbatim>\<open>unsigned long\<close>, as an \<^verbatim>\<open>int\<close>.
\<close>

definition bitset_atom_popcnt :: "bitset_atom_t \<Rightarrow> c_int" where
  "bitset_atom_popcnt w = of_nat (length (filter (bit w) [0..<64]))"

text \<open>
  \<^verbatim>\<open>#define bitset_atom_ctz __builtin_ctzl\<close>: the compiler's builtin, the number of
  trailing 0-bits of an \<^verbatim>\<open>unsigned long\<close>, as an \<^verbatim>\<open>int\<close>; the result is undefined for 0.
\<close>

definition bitset_atom_ctz :: "bitset_atom_t \<Rightarrow> fault + c_int" where
  "bitset_atom_ctz w =
     (if w = 0 then Inl Ctz_Of_Zero
      else Inr (of_nat (length (takeWhile (\<lambda>i. \<not> bit w i) [0..<64]))))"

text \<open>
  \<^verbatim>\<open>size_t bitset_popcnt(const bitset_t* bs) {
      size_t sum = 0;
      for (size_t i = 0; i < bs->natoms; i++) { sum += bitset_atom_popcnt(bs->bits[i]); }
      return sum;
  }\<close>
  The functions below read the struct once: nothing in them writes to a \<^verbatim>\<open>bitset_t\<close>.
\<close>

function popcnt_loop :: "mem \<Rightarrow> bitset_t \<Rightarrow> size_t \<Rightarrow> size_t \<Rightarrow> fault + size_t" where
  "popcnt_loop m s i acc =
     (if i < natoms s
      then fbind (load m (bits s) i) (\<lambda>w.
             popcnt_loop m s (i + 1) (acc + int_to_atom (bitset_atom_popcnt w)))
      else Inr acc)"
  by pat_completeness auto
termination
  by (relation "measure (\<lambda>(m, s, i, acc). unat (natoms s) - unat i)")
     (auto simp: unat_succ_less word_less_nat_alt)

definition bitset_popcnt :: "mem \<Rightarrow> nat \<Rightarrow> fault + size_t" where
  "bitset_popcnt m bs = fbind (deref m bs) (\<lambda>s. popcnt_loop m s 0 0)"

text \<open>
  The scanning loop of \<^verbatim>\<open>bitset_first_set\<close> and \<^verbatim>\<open>bitset_next_set\<close>:
  \<^verbatim>\<open>while (bs->bits[atom] == 0 && atom < bs->natoms) { atom++; }\<close>
  The atom is read before the index is compared with \<^verbatim>\<open>natoms\<close>.
\<close>

function skip_zero_atoms :: "mem \<Rightarrow> bitset_t \<Rightarrow> size_t \<Rightarrow> fault + size_t" where
  "skip_zero_atoms m s atom =
     fbind (load m (bits s) atom) (\<lambda>w.
       if w = 0 \<and> atom < natoms s then skip_zero_atoms m s (atom + 1) else Inr atom)"
  by pat_completeness auto
termination
  by (relation "measure (\<lambda>(m, s, atom). unat (natoms s) - unat atom)")
     (auto simp: unat_succ_less word_less_nat_alt)

text \<open>
  The tail shared by both scans:
  \<^verbatim>\<open>if (atom == bs->natoms) { return -1; }
  return atom * BITS_PER_ATOM + bitset_atom_ctz(bs->bits[atom]);\<close>
  The sum is a \<^verbatim>\<open>size_t\<close>; returning it as \<^verbatim>\<open>int\<close> keeps its low 32 bits.
\<close>

definition scan_result :: "mem \<Rightarrow> bitset_t \<Rightarrow> size_t \<Rightarrow> fault + c_int" where
  "scan_result m s atom =
     (if atom = natoms s then Inr (- 1)
      else fbind (load m (bits s) atom) (\<lambda>w.
           fbind (bitset_atom_ctz w) (\<lambda>z.
             Inr (ucast (atom * BITS_PER_ATOM + int_to_atom z)))))"

text \<open>
  \<^verbatim>\<open>int bitset_first_set(const bitset_t* bs) {
      size_t atom = 0;
      while (bs->bits[atom] == 0 && atom < bs->natoms) { atom++; }
      if (atom == bs->natoms) { return -1; }
      return atom * BITS_PER_ATOM + bitset_atom_ctz(bs->bits[atom]);
  }\<close>
\<close>

definition bitset_first_set :: "mem \<Rightarrow> nat \<Rightarrow> fault + c_int" where
  "bitset_first_set m bs =
     fbind (deref m bs) (\<lambda>s.
     fbind (skip_zero_atoms m s 0) (\<lambda>atom. scan_result m s atom))"

text \<open>
  \<^verbatim>\<open>int bitset_next_set(const bitset_t* bs, size_t from) {
      size_t atom = from / BITS_PER_ATOM;
      bitset_atom_t mask = (BITSET_ATOM_MAX << (from & BITS_PER_ATOM));
      if ((bs->bits[atom] & mask) != 0) {
          return atom * BITS_PER_ATOM + bitset_atom_ctz(atom);
      }
      atom++;
      while (bs->bits[atom] == 0 && atom < bs->natoms) { atom++; }
      if (atom == bs->natoms) { return -1; }
      return atom * BITS_PER_ATOM + bitset_atom_ctz(bs->bits[atom]);
  }\<close>
  In the first \<^verbatim>\<open>return\<close> the argument of \<^verbatim>\<open>bitset_atom_ctz\<close> is the index \<^verbatim>\<open>atom\<close>.
\<close>

definition bitset_next_set :: "mem \<Rightarrow> nat \<Rightarrow> size_t \<Rightarrow> fault + c_int" where
  "bitset_next_set m bs frm =
     fbind (deref m bs) (\<lambda>s.
       let atom = frm div BITS_PER_ATOM in
       fbind (shl_atom BITSET_ATOM_MAX (frm AND BITS_PER_ATOM)) (\<lambda>mask.
       fbind (load m (bits s) atom) (\<lambda>w.
         if w AND mask \<noteq> 0
         then fbind (bitset_atom_ctz atom) (\<lambda>z.
                Inr (ucast (atom * BITS_PER_ATOM + int_to_atom z)))
         else fbind (skip_zero_atoms m s (atom + 1)) (\<lambda>atom'. scan_result m s atom'))))"


section \<open>Sets functions\<close>

text \<open>
  The four set functions run the same loop
  \<^verbatim>\<open>for (size_t i = 0; i < a->natoms; i++) { dest->bits[i] = a->bits[i] OP b->bits[i]; }\<close>
  with \<^verbatim>\<open>OP\<close> either \<^verbatim>\<open>&\<close> or \<^verbatim>\<open>|\<close>, and with \<^verbatim>\<open>dest\<close> being \<^verbatim>\<open>a\<close> in the
  in-place forms (\<^verbatim>\<open>a->bits[i] &= b->bits[i]\<close>). Each store goes to memory before the next
  atoms are read, so that operands sharing a block see it.
\<close>

function atoms_loop ::
  "(bitset_atom_t \<Rightarrow> bitset_atom_t \<Rightarrow> bitset_atom_t) \<Rightarrow>
   mem \<Rightarrow> bitset_t \<Rightarrow> bitset_t \<Rightarrow> bitset_t \<Rightarrow> size_t \<Rightarrow> fault + mem" where
  "atoms_loop f m d a b i =
     (if i < natoms a
      then fbind (load m (bits a) i) (\<lambda>x.
           fbind (load m (bits b) i) (\<lambda>y.
           fbind (store m (bits d) i (f x y)) (\<lambda>m'.
             atoms_loop f m' d a b (i + 1))))
      else Inr m)"
  by pat_completeness auto
termination
  by (relation "measure (\<lambda>(f, m, d, a, b, i). unat (natoms a) - unat i)")
     (auto simp: unat_succ_less word_less_nat_alt)

text \<open>
  \<^verbatim>\<open>void bitset_and_to(bitset_t* dest, const bitset_t* a, const bitset_t* b) {
      assert (a->natoms == b->natoms);
      assert (dest->natoms == a->natoms);
      for (size_t i = 0; i < a->natoms; i++) { dest->bits[i] = a->bits[i] & b->bits[i]; }
  }\<close>
\<close>

definition bitset_and_to :: "mem \<Rightarrow> nat \<Rightarrow> nat \<Rightarrow> nat \<Rightarrow> fault + mem" where
  "bitset_and_to m dest a b =
     fbind (deref m a) (\<lambda>sa.
     fbind (deref m b) (\<lambda>sb.
     fbind (c_assert (natoms sa = natoms sb)) (\<lambda>_.
     fbind (deref m dest) (\<lambda>sd.
     fbind (c_assert (natoms sd = natoms sa)) (\<lambda>_.
       atoms_loop (\<lambda>x y. x AND y) m sd sa sb 0)))))"

text \<open>\<^verbatim>\<open>bitset_or_to\<close>: the same with \<^verbatim>\<open>dest->bits[i] = a->bits[i] | b->bits[i]\<close>.\<close>

definition bitset_or_to :: "mem \<Rightarrow> nat \<Rightarrow> nat \<Rightarrow> nat \<Rightarrow> fault + mem" where
  "bitset_or_to m dest a b =
     fbind (deref m a) (\<lambda>sa.
     fbind (deref m b) (\<lambda>sb.
     fbind (c_assert (natoms sa = natoms sb)) (\<lambda>_.
     fbind (deref m dest) (\<lambda>sd.
     fbind (c_assert (natoms sd = natoms sa)) (\<lambda>_.
       atoms_loop (\<lambda>x y. x OR y) m sd sa sb 0)))))"

text \<open>
  \<^verbatim>\<open>void bitset_and(bitset_t* a, const bitset_t* b) {
      assert (a->natoms == b->natoms);
      for (size_t i = 0; i < a->natoms; i++) { a->bits[i] &= b->bits[i]; }
  }\<close>
\<close>

definition bitset_and :: "mem \<Rightarrow> nat \<Rightarrow> nat \<Rightarrow> fault + mem" where
  "bitset_and m a b =
     fbind (deref m a) (\<lambda>sa.
     fbind (deref m b) (\<lambda>sb.
     fbind (c_assert (natoms sa = natoms sb)) (\<lambda>_.
       atoms_loop (\<lambda>x y. x AND y) m sa sa sb 0)))"

text \<open>\<^verbatim>\<open>bitset_or\<close>: the same with \<^verbatim>\<open>a->bits[i] |= b->bits[i]\<close>.\<close>

definition bitset_or :: "mem \<Rightarrow> nat \<Rightarrow> nat \<Rightarrow> fault + mem" where
  "bitset_or m a b =
     fbind (deref m a) (\<lambda>sa.
     fbind (deref m b) (\<lambda>sb.
     fbind (c_assert (natoms sa = natoms sb)) (\<lambda>_.
       atoms_loop (\<lambda>x y. x OR y) m sa sa sb 0)))"


section \<open>Notions for the properties\<close>

text \<open>
  A bitset is initialized in a memory when its struct is there, \<^verbatim>\<open>natoms\<close> is what
  \<^verbatim>\<open>BITS_TO_NATOMS\<close> gives for \<^verbatim>\<open>nbits\<close>, and \<^verbatim>\<open>bits\<close> points to a live block of
  exactly \<^verbatim>\<open>natoms\<close> atoms: the state a successful \<^verbatim>\<open>bitset_init\<close> or
  \<^verbatim>\<open>bitset_resize\<close> leaves.
\<close>

definition initialized :: "mem \<Rightarrow> nat \<Rightarrow> bool" where
  "initialized m bs =
     (case structs m bs of
        None \<Rightarrow> False
      | Some s \<Rightarrow>
          natoms s = BITS_TO_NATOMS (nbits s) \<and>
          (case block_of m (bits s) of
             Inl _ \<Rightarrow> False
           | Inr buf \<Rightarrow> length buf = unat (natoms s)))"


text \<open>
  A memory holding one bitset: its struct at address 0 and its block at address 7.
\<close>

definition one_bitset :: "size_t \<Rightarrow> size_t \<Rightarrow> bitset_atom_t list \<Rightarrow> mem" where
  "one_bitset n na buf =
     \<lparr>structs = Map.empty(0 \<mapsto> \<lparr>nbits = n, natoms = na, bits = Some 7\<rparr>),
      blocks = Map.empty(7 \<mapsto> buf)\<rparr>"

text \<open>
  The invariant of the struct: \<^verbatim>\<open>natoms\<close> is the ceiling of \<^verbatim>\<open>nbits / 64\<close>, computed
  on natural numbers, where nothing wraps.
\<close>

definition natoms_invariant :: "bitset_t \<Rightarrow> bool" where
  "natoms_invariant s = (unat (natoms s) = (unat (nbits s) + 63) div 64)"

text \<open>The invariant holds of the struct at address \<open>bs\<close>.\<close>

definition invariant_at :: "mem \<Rightarrow> nat \<Rightarrow> bool" where
  "invariant_at m bs = (case structs m bs of None \<Rightarrow> False | Some s \<Rightarrow> natoms_invariant s)"

text \<open>
  A client of the library calls its functions one after the other. A call is an
  \<open>operation\<close>; \<open>run\<close> gives the memory after the call, dropping what the call returns,
  and \<open>run_all\<close> runs a sequence of calls, stopping at the first fault.
\<close>

datatype operation =
    Op_init malloc_answer nat size_t
  | Op_wipe nat
  | Op_copy nat nat
  | Op_resize realloc_answer nat size_t
  | Op_set nat size_t
  | Op_set_bit nat size_t bit_t
  | Op_set_bit_inline nat size_t bit_t
  | Op_unset nat size_t
  | Op_get nat size_t
  | Op_get_inline nat size_t
  | Op_popcnt nat
  | Op_first_set nat
  | Op_next_set nat size_t
  | Op_and_to nat nat nat
  | Op_or_to nat nat nat
  | Op_and nat nat
  | Op_or nat nat

fun run :: "mem \<Rightarrow> operation \<Rightarrow> fault + mem" where
  "run m (Op_init r bs n) = fbind (bitset_init r m bs n) (\<lambda>(rc, m'). Inr m')"
| "run m (Op_wipe bs) = bitset_wipe m bs"
| "run m (Op_copy dest src) = bitset_copy m dest src"
| "run m (Op_resize r bs n) = fbind (bitset_resize r m bs n) (\<lambda>(rc, m'). Inr m')"
| "run m (Op_set bs b) = bitset_set m bs b"
| "run m (Op_set_bit bs idx v) = bitset_set_bit m bs idx v"
| "run m (Op_set_bit_inline bs idx v) = bitset_set_bit_inline m bs idx v"
| "run m (Op_unset bs b) = bitset_unset m bs b"
| "run m (Op_get bs b) = fbind (bitset_get m bs b) (\<lambda>_. Inr m)"
| "run m (Op_get_inline bs b) = fbind (bitset_get_inline m bs b) (\<lambda>(g, m'). Inr m')"
| "run m (Op_popcnt bs) = fbind (bitset_popcnt m bs) (\<lambda>_. Inr m)"
| "run m (Op_first_set bs) = fbind (bitset_first_set m bs) (\<lambda>_. Inr m)"
| "run m (Op_next_set bs frm) = fbind (bitset_next_set m bs frm) (\<lambda>_. Inr m)"
| "run m (Op_and_to dest a b) = bitset_and_to m dest a b"
| "run m (Op_or_to dest a b) = bitset_or_to m dest a b"
| "run m (Op_and a b) = bitset_and m a b"
| "run m (Op_or a b) = bitset_or m a b"

fun run_all :: "mem \<Rightarrow> operation list \<Rightarrow> fault + mem" where
  "run_all m [] = Inr m"
| "run_all m (x # xs) = fbind (run m x) (\<lambda>m'. run_all m' xs)"

text \<open>The calls that are meant to set \<^verbatim>\<open>nbits\<close> and \<^verbatim>\<open>natoms\<close>.\<close>

fun sizing :: "operation \<Rightarrow> bool" where
  "sizing (Op_init r bs n) = True"
| "sizing (Op_resize r bs n) = True"
| "sizing _ = False"


text \<open>
  Between two memories, no struct has changed and no block has changed but the one that
  the struct at \<open>dest\<close> points to.
\<close>

definition only_block_changed :: "mem \<Rightarrow> mem \<Rightarrow> nat \<Rightarrow> bool" where
  "only_block_changed m m' dest =
     (structs m' = structs m \<and>
      (\<forall>sd p. structs m dest = Some sd \<and> bits sd \<noteq> Some p \<longrightarrow> blocks m' p = blocks m p))"

text \<open>The lengths of the blocks, which no store changes.\<close>

definition block_sizes :: "mem \<Rightarrow> nat \<Rightarrow> nat option" where
  "block_sizes m p = map_option length (blocks m p)"

text \<open>A memory holding three bitsets of 65 bits, each with its own block.\<close>

definition three_bitsets :: mem where
  "three_bitsets =
     \<lparr>structs = Map.empty(0 \<mapsto> \<lparr>nbits = 65, natoms = 2, bits = Some 7\<rparr>,
                          1 \<mapsto> \<lparr>nbits = 65, natoms = 2, bits = Some 8\<rparr>,
                          2 \<mapsto> \<lparr>nbits = 65, natoms = 2, bits = Some 9\<rparr>),
      blocks = Map.empty(7 \<mapsto> [0, 0], 8 \<mapsto> [3, 1], 9 \<mapsto> [5, 1])\<rparr>"


text \<open>
  A memory before any call: one \<^verbatim>\<open>bitset_t\<close> object at address 0, not yet initialized,
  and no heap block.
\<close>

definition blank :: mem where
  "blank = \<lparr>structs = Map.empty(0 \<mapsto> \<lparr>nbits = 0, natoms = 0, bits = None\<rparr>),
            blocks = Map.empty\<rparr>"

text \<open>
  The number of indices \<open>i < nbits\<close> at which \<^verbatim>\<open>bitset_get\<close> returns 1.
\<close>

definition count_get_ones :: "mem \<Rightarrow> nat \<Rightarrow> nat" where
  "count_get_ones m bs =
     (case structs m bs of
        None \<Rightarrow> 0
      | Some s \<Rightarrow>
          length (filter (\<lambda>i. bitset_get m bs (of_nat i) = Inr 1) [0..<unat (nbits s)]))"


text \<open>
  The storage layout: bit \<open>k\<close> of a bitset is bit \<open>k mod 64\<close> of atom \<open>k div 64\<close>.
\<close>

definition storage_bit :: "bitset_atom_t list \<Rightarrow> nat \<Rightarrow> bool" where
  "storage_bit buf k = (k div 64 < length buf \<and> bit (buf ! (k div 64)) (k mod 64))"


text \<open>The number of 1-bits of an atom.\<close>

definition ones :: "bitset_atom_t \<Rightarrow> nat" where
  "ones w = length (filter (bit w) [0..<64])"


section \<open>Arithmetic of \<^verbatim>\<open>BITS_TO_NATOMS\<close>\<close>

lemma nat_ceil64_split: "((k::nat) + 63) div 64 = k div 64 + (k mod 64 + 63) div 64"
  using div_add1_eq [of k 63 64] by simp

lemma nat_ceil64_0: "(k::nat) mod 64 = 0 \<Longrightarrow> (k + 63) div 64 = k div 64"
  using nat_ceil64_split [of k] by simp

lemma nat_ceil64_1:
  assumes "(k::nat) mod 64 \<noteq> 0"
  shows "(k + 63) div 64 = k div 64 + 1"
proof -
  have "k mod 64 < 64" by simp
  with assms have "(k mod 64 + 63) div 64 = 1"
    by (intro div_nat_eqI) simp_all
  then show ?thesis using nat_ceil64_split [of k] by simp
qed

lemma unat_lt64: "unat (n :: 64 word) < 18446744073709551616"
  using unsigned_less [of n, where ?'a = nat] by simp

lemma unat_div64_succ: "unat ((n :: 64 word) div 64 + 1) = unat n div 64 + 1"
proof -
  have d: "unat (n div 64) = unat n div 64" by (simp add: unat_div)
  have "unat n div 64 + 1 < 18446744073709551616" using unat_lt64 [of n] by linarith
  then have "unat (n div 64) + unat (1 :: 64 word) < 2 ^ LENGTH(64)"
    by (simp add: d)
  then have "unat (n div 64 + 1) = unat (n div 64) + unat (1 :: 64 word)"
    by (simp only: unat_add_lem [THEN iffD1])
  then show ?thesis by (simp add: d)
qed

text \<open>The macro computes the ceiling of \<open>n / 64\<close>; the addition in it cannot wrap.\<close>

lemma unat_BITS_TO_NATOMS: "unat (BITS_TO_NATOMS n) = (unat n + 63) div 64"
proof (cases "n mod 64 = 0")
  case True
  then have "unat n mod 64 = 0" by (simp add: unat_mod flip: unat_0_iff)
  then have "(unat n + 63) div 64 = unat n div 64" by (rule nat_ceil64_0)
  with True show ?thesis by (simp add: BITS_TO_NATOMS_def BITS_PER_ATOM_def unat_div)
next
  case False
  then have "unat n mod 64 \<noteq> 0" by (simp add: unat_mod flip: unat_0_iff)
  then have "(unat n + 63) div 64 = unat n div 64 + 1" by (rule nat_ceil64_1)
  with False show ?thesis by (simp add: BITS_TO_NATOMS_def BITS_PER_ATOM_def unat_div64_succ)
qed

text \<open>The byte count \<^verbatim>\<open>natoms * sizeof(bitset_atom_t)\<close> cannot wrap either.\<close>

lemma BITS_TO_NATOMS_bytes:
  "atoms_of_bytes (BITS_TO_NATOMS n * sizeof_atom) = unat (BITS_TO_NATOMS n)"
proof -
  have "unat (BITS_TO_NATOMS n) \<le> (18446744073709551615 + 63) div 64"
    unfolding unat_BITS_TO_NATOMS using unat_lt64 [of n] by (intro div_le_mono) simp
  then have "unat (BITS_TO_NATOMS n) * unat (8 :: 64 word) < 2 ^ LENGTH(64)" by simp
  then have "unat (BITS_TO_NATOMS n * 8) = unat (BITS_TO_NATOMS n) * unat (8 :: 64 word)"
    by (simp only: unat_mult_lem [THEN iffD1])
  then show ?thesis by (simp add: atoms_of_bytes_def sizeof_atom_def)
qed

lemma initializedE:
  assumes "initialized m bs"
  obtains s p buf where "structs m bs = Some s" "natoms s = BITS_TO_NATOMS (nbits s)"
    "bits s = Some p" "blocks m p = Some buf" "length buf = unat (natoms s)"
  using assms
  by (auto simp: initialized_def block_of_def split: option.splits sum.splits)

lemma initialized_one_bitset:
  "initialized (one_bitset n na buf) 0 = (na = BITS_TO_NATOMS n \<and> length buf = unat na)"
  by (simp add: initialized_def one_bitset_def block_of_def)


section \<open>The struct fields\<close>

declare atoms_loop.simps [simp del] popcnt_loop.simps [simp del] skip_zero_atoms.simps [simp del]

lemma fbind_Inr_iff: "(fbind x f = Inr y) = (\<exists>v. x = Inr v \<and> f v = Inr y)"
  by (cases x) auto

lemma store_structs: "store m q i v = Inr m' \<Longrightarrow> structs m' = structs m"
  by (auto simp: store_def fbind_Inr_iff split: if_splits)

lemma bitset_set_structs: "bitset_set m bs b = Inr m' \<Longrightarrow> structs m' = structs m"
  by (auto simp: bitset_set_def fbind_Inr_iff dest: store_structs)

lemma bitset_unset_structs: "bitset_unset m bs b = Inr m' \<Longrightarrow> structs m' = structs m"
  by (auto simp: bitset_unset_def fbind_Inr_iff dest: store_structs)

lemma bitset_get_inline_structs:
  "bitset_get_inline m bs b = Inr (g, m') \<Longrightarrow> structs m' = structs m"
  by (auto simp: bitset_get_inline_def fbind_Inr_iff dest: store_structs)

lemma bitset_set_bit_structs: "bitset_set_bit m bs idx v = Inr m' \<Longrightarrow> structs m' = structs m"
  by (auto simp: bitset_set_bit_def fbind_Inr_iff split: if_splits
           dest: bitset_set_structs bitset_unset_structs)

lemma bitset_set_bit_inline_structs:
  assumes "bitset_set_bit_inline m bs idx v = Inr m'"
  shows "structs m' = structs m"
proof -
  from assms obtain g m1 where g: "bitset_get_inline m bs idx = Inr (g, m1)"
    and r: "(if g \<noteq> 0 then bitset_unset m1 bs idx else bitset_set m1 bs idx) = Inr m'"
    by (auto simp: bitset_set_bit_inline_def fbind_Inr_iff)
  from r have "structs m' = structs m1"
    by (auto split: if_splits dest: bitset_set_structs bitset_unset_structs)
  with bitset_get_inline_structs [OF g] show ?thesis by simp
qed

lemma atoms_loop_structs: "atoms_loop f m d a b i = Inr m' \<Longrightarrow> structs m' = structs m"
proof (induction f m d a b i rule: atoms_loop.induct)
  case (1 f m d a b i)
  show ?case
  proof (cases "i < natoms a")
    case True
    with "1.prems" obtain x y m1 where
      x: "load m (bits a) i = Inr x" and y: "load m (bits b) i = Inr y"
      and st: "store m (bits d) i (f x y) = Inr m1"
      and rest: "atoms_loop f m1 d a b (i + 1) = Inr m'"
      by (subst (asm) atoms_loop.simps) (auto simp: fbind_Inr_iff)
    from "1.IH" [OF True x y st rest] store_structs [OF st] show ?thesis by simp
  next
    case False
    with "1.prems" show ?thesis by (subst (asm) atoms_loop.simps) simp
  qed
qed

lemma bitset_wipe_structs: "bitset_wipe m bs = Inr m' \<Longrightarrow> structs m' = structs m"
  by (auto simp: bitset_wipe_def libc_free_def fbind_Inr_iff split: option.splits)

lemma bitset_copy_structs: "bitset_copy m dest src = Inr m' \<Longrightarrow> structs m' = structs m"
  by (auto simp: bitset_copy_def libc_memcpy_def fbind_Inr_iff split: if_splits)

lemma set_functions_structs:
  "bitset_and_to m dest a b = Inr m' \<Longrightarrow> structs m' = structs m"
  "bitset_or_to m dest a b = Inr m' \<Longrightarrow> structs m' = structs m"
  "bitset_and m a b = Inr m' \<Longrightarrow> structs m' = structs m"
  "bitset_or m a b = Inr m' \<Longrightarrow> structs m' = structs m"
  by (auto simp: bitset_and_to_def bitset_or_to_def bitset_and_def bitset_or_def fbind_Inr_iff
           dest: atoms_loop_structs)

lemma run_structs: "\<not> sizing op \<Longrightarrow> run m op = Inr m' \<Longrightarrow> structs m' = structs m"
  by (cases op)
     (auto simp: fbind_Inr_iff
           dest: bitset_set_structs bitset_unset_structs bitset_get_inline_structs
                 bitset_set_bit_structs bitset_set_bit_inline_structs bitset_wipe_structs
                 bitset_copy_structs set_functions_structs)


lemma natoms_invariant_BITS_TO_NATOMS:
  "natoms s = BITS_TO_NATOMS (nbits s) \<Longrightarrow> natoms_invariant s"
  by (simp add: natoms_invariant_def unat_BITS_TO_NATOMS)

lemma bitset_init_structs:
  assumes "bitset_init r m bs n = Inr (rc, m')"
  shows "\<exists>q. structs m' = (structs m)(bs \<mapsto> \<lparr>nbits = n, natoms = BITS_TO_NATOMS n, bits = q\<rparr>)"
  using assms
  by (auto simp: bitset_init_def libc_malloc_def libc_memset_zero_def fbind_Inr_iff Let_def
           split: malloc_answer.splits if_splits)

lemma libc_realloc_structs:
  "libc_realloc r m q n = Inr (q', m1) \<Longrightarrow> structs m1 = structs m"
  by (cases r) (auto simp: libc_realloc_def fbind_Inr_iff split: if_splits)

lemma bitset_resize_structs:
  assumes "bitset_resize r m bs n = Inr (rc, m')"
  shows "structs m' = structs m \<or>
         (\<exists>q. structs m' = (structs m)(bs \<mapsto> \<lparr>nbits = n, natoms = BITS_TO_NATOMS n, bits = q\<rparr>))"
proof -
  from assms obtain s :: bitset_t and va where
    r: "libc_realloc r m (bits s) (BITS_TO_NATOMS n * sizeof_atom) = Inr va"
    and c: "(case va of (new_bits, m1) \<Rightarrow>
               if new_bits = None then Inr (- 1, m1)
               else Inr (0, m1\<lparr>structs := (structs m1)
                      (bs \<mapsto> \<lparr>nbits = n, natoms = BITS_TO_NATOMS n, bits = new_bits\<rparr>)\<rparr>))
            = (Inr (rc, m') :: fault + c_int \<times> mem)"
    unfolding bitset_resize_def fbind_Inr_iff Let_def by blast
  obtain q m1 where va: "va = (q, m1)" by (cases va)
  from libc_realloc_structs [OF r [unfolded va]] c show ?thesis
    by (auto simp: va split: if_splits)
qed

lemma run_invariant_at:
  assumes "run m x = Inr m'" and "invariant_at m bs"
  shows "invariant_at m' bs"
proof (cases "sizing x")
  case False
  with assms show ?thesis by (simp add: invariant_at_def run_structs)
next
  case True
  then consider r b n where "x = Op_init r b n" | r b n where "x = Op_resize r b n"
    by (cases x) auto
  then show ?thesis
  proof cases
    case 1
    with assms(1) obtain rc where "bitset_init r m b n = Inr (rc, m')"
      by (auto simp: fbind_Inr_iff)
    from bitset_init_structs [OF this] assms(2) show ?thesis
      by (auto simp: invariant_at_def natoms_invariant_BITS_TO_NATOMS)
  next
    case 2
    with assms(1) obtain rc where "bitset_resize r m b n = Inr (rc, m')"
      by (auto simp: fbind_Inr_iff)
    from bitset_resize_structs [OF this] assms(2) show ?thesis
      by (auto simp: invariant_at_def natoms_invariant_BITS_TO_NATOMS)
  qed
qed

lemma run_all_invariant_at:
  "run_all m xs = Inr m' \<Longrightarrow> invariant_at m bs \<Longrightarrow> invariant_at m' bs"
proof (induction xs arbitrary: m)
  case Nil
  then show ?case by simp
next
  case (Cons x xs)
  from Cons.prems(1) obtain m1 where "run m x = Inr m1" "run_all m1 xs = Inr m'"
    by (auto simp: fbind_Inr_iff)
  with Cons.IH [of m1] run_invariant_at [of m x m1 bs] Cons.prems(2) show ?case by simp
qed

lemma run_init_invariant_at:
  assumes "run m (Op_init r bs n) = Inr m'"
  shows "invariant_at m' bs"
proof -
  from assms obtain rc where "bitset_init r m bs n = Inr (rc, m')"
    by (auto simp: fbind_Inr_iff)
  from bitset_init_structs [OF this] show ?thesis
    by (auto simp: invariant_at_def natoms_invariant_BITS_TO_NATOMS)
qed

text \<open>
  C9: once \<^verbatim>\<open>bitset_init\<close> has run on a struct, then after any sequence of later calls
  of the library's functions that runs without fault (successful and failed
  \<^verbatim>\<open>bitset_resize\<close> included) the struct satisfies \<open>natoms = ceil (nbits / 64)\<close>; and
  a call of any function other than \<^verbatim>\<open>bitset_init\<close> and \<^verbatim>\<open>bitset_resize\<close> leaves every
  struct, hence every \<^verbatim>\<open>nbits\<close> and \<^verbatim>\<open>natoms\<close>, as it was.
\<close>

theorem natoms_invariant_maintained:
  "(run m (Op_init r bs n) = Inr m0 \<and> run_all m0 ops = Inr m' \<longrightarrow> invariant_at m' bs) \<and>
   (\<not> sizing x \<and> run m1 x = Inr m2 \<longrightarrow> structs m2 = structs m1)"
  using run_init_invariant_at run_all_invariant_at run_structs by blast


lemmas c_defs = deref_def block_of_def load_def store_def c_assert_def shl_int_def shl_atom_def
  shr_atom_def int_to_atom_def BITS_PER_ATOM_def BITS_TO_NATOMS_def BITSET_ATOM_MAX_def
  sizeof_atom_def atoms_of_bytes_def libc_malloc_def libc_memset_zero_def libc_free_def
  libc_memcpy_def libc_realloc_def release_def

lemmas api_defs = bitset_init_def bitset_wipe_def bitset_copy_def bitset_resize_def
  bitset_set_def bitset_unset_def bitset_get_def bitset_get_inline_def bitset_set_bit_def
  bitset_set_bit_inline_def bitset_popcnt_def bitset_first_set_def bitset_next_set_def
  bitset_and_to_def bitset_or_to_def bitset_and_def bitset_or_def scan_result_def

lemma replicate_3: "replicate 3 x = [x, x, x]"
  by (simp add: numeral_3_eq_3)

theorem natoms_invariant_maintained_witness:
  "(\<exists>m0 m'. run \<lparr>structs = Map.empty(0 \<mapsto> \<lparr>nbits = 99, natoms = 5, bits = None\<rparr>),
                   blocks = Map.empty\<rparr> (Op_init (Malloc_At 7 (\<lambda>_. 9)) 0 130) = Inr m0 \<and>
       run_all m0 [Op_set 0 0, Op_resize (Realloc_At 8 (\<lambda>_. 6)) 0 200, Op_unset 0 128] = Inr m' \<and>
       invariant_at m' 0) \<and>
   \<not> sizing (Op_set 0 0) \<and>
   (\<exists>m2. run (one_bitset 130 3 [0, 0, 0]) (Op_set 0 0) = Inr m2 \<and>
      structs m2 = structs (one_bitset 130 3 [0, 0, 0]))"
proof -
  let ?m = "\<lparr>structs = Map.empty(0 \<mapsto> \<lparr>nbits = 99, natoms = 5, bits = None\<rparr>),
             blocks = Map.empty\<rparr>"
  let ?ops = "[Op_set 0 0, Op_resize (Realloc_At 8 (\<lambda>_. 6)) 0 200, Op_unset 0 128]"
  have a: "run ?m (Op_init (Malloc_At 7 (\<lambda>_. 9)) 0 130) = Inr (one_bitset 130 3 [0, 0, 0])"
    by (simp add: api_defs c_defs one_bitset_def upt_rec replicate_3)
  have "\<exists>m'. run_all (one_bitset 130 3 [0, 0, 0]) ?ops = Inr m'"
    by (simp add: api_defs c_defs one_bitset_def upt_rec)
  then obtain m' where b: "run_all (one_bitset 130 3 [0, 0, 0]) ?ops = Inr m'" ..
  have "\<exists>m2. run (one_bitset 130 3 [0, 0, 0]) (Op_set 0 0) = Inr m2"
    by (simp add: api_defs c_defs one_bitset_def)
  then obtain m2 where c: "run (one_bitset 130 3 [0, 0, 0]) (Op_set 0 0) = Inr m2" ..
  have d: "\<not> sizing (Op_set 0 0)" by simp
  from natoms_invariant_maintained
         [of ?m "Malloc_At 7 (\<lambda>_. 9)" 0 130 "one_bitset 130 3 [0, 0, 0]" ?ops m'
             "Op_set 0 0" "one_bitset 130 3 [0, 0, 0]" m2] a b c d
  show ?thesis by blast
qed



section \<open>What the set functions and the copy write\<close>

lemma store_blocks: "store m q i v = Inr m' \<Longrightarrow> q \<noteq> Some p \<Longrightarrow> blocks m' p = blocks m p"
  by (auto simp: store_def block_of_def fbind_Inr_iff split: if_splits option.splits)

lemma atoms_loop_blocks:
  "atoms_loop f m d a b i = Inr m' \<Longrightarrow> bits d \<noteq> Some p \<Longrightarrow> blocks m' p = blocks m p"
proof (induction f m d a b i rule: atoms_loop.induct)
  case (1 f m d a b i)
  show ?case
  proof (cases "i < natoms a")
    case True
    with "1.prems"(1) obtain x y m1 where
      x: "load m (bits a) i = Inr x" and y: "load m (bits b) i = Inr y"
      and st: "store m (bits d) i (f x y) = Inr m1"
      and rest: "atoms_loop f m1 d a b (i + 1) = Inr m'"
      by (subst (asm) atoms_loop.simps) (auto simp: fbind_Inr_iff)
    from "1.IH" [OF True x y st rest "1.prems"(2)] store_blocks [OF st "1.prems"(2)]
    show ?thesis by simp
  next
    case False
    with "1.prems"(1) show ?thesis by (subst (asm) atoms_loop.simps) simp
  qed
qed

lemma libc_memcpy_blocks:
  "libc_memcpy m d s n = Inr m' \<Longrightarrow> d \<noteq> Some p \<Longrightarrow> blocks m' p = blocks m p"
  by (auto simp: libc_memcpy_def block_of_def fbind_Inr_iff split: if_splits option.splits)

lemma bitset_and_to_frame:
  "bitset_and_to m dest a b = Inr m' \<Longrightarrow> only_block_changed m m' dest"
  unfolding only_block_changed_def
  by (auto simp: bitset_and_to_def deref_def fbind_Inr_iff split: option.splits
           dest: atoms_loop_structs atoms_loop_blocks)

lemma bitset_or_to_frame:
  "bitset_or_to m dest a b = Inr m' \<Longrightarrow> only_block_changed m m' dest"
  unfolding only_block_changed_def
  by (auto simp: bitset_or_to_def deref_def fbind_Inr_iff split: option.splits
           dest: atoms_loop_structs atoms_loop_blocks)

lemma bitset_and_frame:
  "bitset_and m a b = Inr m' \<Longrightarrow> only_block_changed m m' a"
  unfolding only_block_changed_def
  by (auto simp: bitset_and_def deref_def fbind_Inr_iff split: option.splits
           dest: atoms_loop_structs atoms_loop_blocks)

lemma bitset_or_frame:
  "bitset_or m a b = Inr m' \<Longrightarrow> only_block_changed m m' a"
  unfolding only_block_changed_def
  by (auto simp: bitset_or_def deref_def fbind_Inr_iff split: option.splits
           dest: atoms_loop_structs atoms_loop_blocks)

lemma libc_memcpy_structs: "libc_memcpy m d s n = Inr m' \<Longrightarrow> structs m' = structs m"
  by (auto simp: libc_memcpy_def fbind_Inr_iff split: if_splits)

lemma bitset_copy_frame:
  "bitset_copy m dest src = Inr m' \<Longrightarrow> only_block_changed m m' dest"
  unfolding only_block_changed_def
  by (auto simp: bitset_copy_def deref_def fbind_Inr_iff split: option.splits
           dest: libc_memcpy_structs libc_memcpy_blocks)

text \<open>
  C10: whenever \<^verbatim>\<open>bitset_and_to\<close>, \<^verbatim>\<open>bitset_or_to\<close>, \<^verbatim>\<open>bitset_and\<close>, \<^verbatim>\<open>bitset_or\<close> or
  \<^verbatim>\<open>bitset_copy\<close> runs to its end (its assertions on \<^verbatim>\<open>natoms\<close> hold and no access
  leaves a block), it has changed nothing but storage words of its destination operand:
  every struct, hence \<^verbatim>\<open>nbits\<close>, \<^verbatim>\<open>natoms\<close> and \<^verbatim>\<open>bits\<close> of every operand, is as
  before, and so is every block other than the destination's.
\<close>

theorem set_functions_change_only_destination:
  "(bitset_and_to m dest a b = Inr m' \<longrightarrow> only_block_changed m m' dest) \<and>
   (bitset_or_to m dest a b = Inr m' \<longrightarrow> only_block_changed m m' dest) \<and>
   (bitset_and m a b = Inr m' \<longrightarrow> only_block_changed m m' a) \<and>
   (bitset_or m a b = Inr m' \<longrightarrow> only_block_changed m m' a) \<and>
   (bitset_copy m dest a = Inr m' \<longrightarrow> only_block_changed m m' dest)"
  by (intro conjI impI)
     (erule bitset_and_to_frame bitset_or_to_frame bitset_and_frame bitset_or_frame
        bitset_copy_frame)+

lemma store_block_sizes: "store m q i v = Inr m' \<Longrightarrow> block_sizes m' = block_sizes m"
  by (auto simp: store_def block_of_def block_sizes_def fbind_Inr_iff fun_eq_iff
           split: if_splits option.splits)

lemma load_returns:
  "q = Some p \<Longrightarrow> block_sizes m p = Some k \<Longrightarrow> unat i < k \<Longrightarrow> \<exists>x. load m q i = Inr x"
  by (auto simp: load_def block_of_def block_sizes_def)

lemma store_returns:
  "q = Some p \<Longrightarrow> block_sizes m p = Some k \<Longrightarrow> unat i < k \<Longrightarrow> \<exists>m'. store m q i v = Inr m'"
  by (auto simp: store_def block_of_def block_sizes_def)

lemma atoms_loop_returns:
  assumes "bits a = Some pa" "block_sizes m pa = Some ka" "unat (natoms a) \<le> ka"
    and "bits b = Some pb" "block_sizes m pb = Some kb" "unat (natoms a) \<le> kb"
    and "bits d = Some pd" "block_sizes m pd = Some kd" "unat (natoms a) \<le> kd"
  shows "\<exists>m'. atoms_loop f m d a b i = Inr m'"
  using assms
proof (induction f m d a b i rule: atoms_loop.induct)
  case (1 f m d a b i)
  show ?case
  proof (cases "i < natoms a")
    case True
    then have lt: "unat i < unat (natoms a)" by (simp add: word_less_nat_alt)
    from load_returns [OF "1.prems"(1,2), of i] lt "1.prems"(3)
    obtain x where x: "load m (bits a) i = Inr x" by auto
    from load_returns [OF "1.prems"(4,5), of i] lt "1.prems"(6)
    obtain y where y: "load m (bits b) i = Inr y" by auto
    from store_returns [OF "1.prems"(7,8), of i "f x y"] lt "1.prems"(9)
    obtain m1 where st: "store m (bits d) i (f x y) = Inr m1" by auto
    from store_block_sizes [OF st] "1.prems"
    have "\<exists>m'. atoms_loop f m1 d a b (i + 1) = Inr m'"
      by (intro "1.IH" [OF True x y st]) simp_all
    with True x y st show ?thesis by (subst atoms_loop.simps) simp
  next
    case False
    then show ?thesis by (subst atoms_loop.simps) simp
  qed
qed

lemma initialized_block_sizes:
  assumes "initialized m bs"
  obtains s p where "structs m bs = Some s" "bits s = Some p"
    "block_sizes m p = Some (unat (natoms s))"
  using assms by (auto simp: block_sizes_def elim!: initializedE)

text \<open>
  On initialized operands of equal \<^verbatim>\<open>natoms\<close> the four set functions run to their end,
  whichever operands share a struct or a block.
\<close>

lemma set_functions_return:
  assumes "initialized m dest" "initialized m a" "initialized m b"
    and "structs m dest = Some sd" "structs m a = Some sa" "structs m b = Some sb"
    and "natoms sa = natoms sb" "natoms sd = natoms sa"
  shows "\<exists>m'. bitset_and_to m dest a b = Inr m'" "\<exists>m'. bitset_or_to m dest a b = Inr m'"
    "\<exists>m'. bitset_and m a b = Inr m'" "\<exists>m'. bitset_or m a b = Inr m'"
proof -
  from assms(1,4) obtain pd where d: "bits sd = Some pd" "block_sizes m pd = Some (unat (natoms sd))"
    by (auto elim!: initialized_block_sizes)
  from assms(2,5) obtain pa where a: "bits sa = Some pa" "block_sizes m pa = Some (unat (natoms sa))"
    by (auto elim!: initialized_block_sizes)
  from assms(3,6) obtain pb where b: "bits sb = Some pb" "block_sizes m pb = Some (unat (natoms sb))"
    by (auto elim!: initialized_block_sizes)
  have l: "\<exists>m'. atoms_loop f m sd sa sb 0 = Inr m'" for f
    by (rule atoms_loop_returns [OF a(1,2) _ b(1,2) _ d(1,2)]) (simp_all add: assms(7,8))
  have l': "\<exists>m'. atoms_loop f m sa sa sb 0 = Inr m'" for f
    by (rule atoms_loop_returns [OF a(1,2) _ b(1,2) _ a(1,2)]) (simp_all add: assms(7))
  show "\<exists>m'. bitset_and_to m dest a b = Inr m'"
    using l by (simp add: bitset_and_to_def deref_def c_assert_def assms)
  show "\<exists>m'. bitset_or_to m dest a b = Inr m'"
    using l by (simp add: bitset_or_to_def deref_def c_assert_def assms)
  show "\<exists>m'. bitset_and m a b = Inr m'"
    using l' by (simp add: bitset_and_def deref_def c_assert_def assms)
  show "\<exists>m'. bitset_or m a b = Inr m'"
    using l' by (simp add: bitset_or_def deref_def c_assert_def assms)
qed


lemma bitset_copy_returns:
  assumes "initialized m dest" "initialized m src"
    and "structs m dest = Some sd" "structs m src = Some ss"
    and "natoms sd = natoms ss" "bits sd \<noteq> bits ss"
  shows "\<exists>m'. bitset_copy m dest src = Inr m'"
proof -
  from assms(1,3) obtain pd bd where d: "bits sd = Some pd" "blocks m pd = Some bd"
    "length bd = unat (natoms sd)"
    by (auto elim!: initializedE)
  from assms(2,4) obtain ps bs where s: "bits ss = Some ps" "blocks m ps = Some bs"
    "length bs = unat (natoms ss)" "natoms ss = BITS_TO_NATOMS (nbits ss)"
    by (auto elim!: initializedE)
  have "atoms_of_bytes (natoms ss * sizeof_atom) = unat (natoms ss)"
    using BITS_TO_NATOMS_bytes [of "nbits ss"] s(4) by simp
  with d s assms(5,6) show ?thesis
    by (simp add: bitset_copy_def deref_def c_assert_def libc_memcpy_def block_of_def assms(3,4))
qed

theorem set_functions_change_only_destination_witness:
  "(\<exists>m'. bitset_and_to three_bitsets 0 1 2 = Inr m' \<and> only_block_changed three_bitsets m' 0) \<and>
   (\<exists>m'. bitset_or_to three_bitsets 0 1 2 = Inr m' \<and> only_block_changed three_bitsets m' 0) \<and>
   (\<exists>m'. bitset_and three_bitsets 1 2 = Inr m' \<and> only_block_changed three_bitsets m' 1) \<and>
   (\<exists>m'. bitset_or three_bitsets 1 2 = Inr m' \<and> only_block_changed three_bitsets m' 1) \<and>
   (\<exists>m'. bitset_copy three_bitsets 0 1 = Inr m' \<and> only_block_changed three_bitsets m' 0)"
proof -
  note ev = api_defs c_defs three_bitsets_def atoms_loop.simps
  have "\<exists>m'. bitset_and_to three_bitsets 0 1 2 = Inr m'" by (simp add: ev)
  then obtain m1 where 1: "bitset_and_to three_bitsets 0 1 2 = Inr m1" ..
  have "\<exists>m'. bitset_or_to three_bitsets 0 1 2 = Inr m'" by (simp add: ev)
  then obtain m2 where 2: "bitset_or_to three_bitsets 0 1 2 = Inr m2" ..
  have "\<exists>m'. bitset_and three_bitsets 1 2 = Inr m'" by (simp add: ev)
  then obtain m3 where 3: "bitset_and three_bitsets 1 2 = Inr m3" ..
  have "\<exists>m'. bitset_or three_bitsets 1 2 = Inr m'" by (simp add: ev)
  then obtain m4 where 4: "bitset_or three_bitsets 1 2 = Inr m4" ..
  have "\<exists>m'. bitset_copy three_bitsets 0 1 = Inr m'" by (simp add: ev)
  then obtain m5 where 5: "bitset_copy three_bitsets 0 1 = Inr m5" ..
  from set_functions_change_only_destination [of three_bitsets 0 1 2 m1] 1
  have a: "only_block_changed three_bitsets m1 0" by blast
  from set_functions_change_only_destination [of three_bitsets 0 1 2 m2] 2
  have b: "only_block_changed three_bitsets m2 0" by blast
  from set_functions_change_only_destination [of three_bitsets 0 1 2 m3] 3
  have c: "only_block_changed three_bitsets m3 1" by blast
  from set_functions_change_only_destination [of three_bitsets 0 1 2 m4] 4
  have d: "only_block_changed three_bitsets m4 1" by blast
  from set_functions_change_only_destination [of three_bitsets 0 1 2 m5] 5
  have e: "only_block_changed three_bitsets m5 0" by blast
  from 1 2 3 4 5 a b c d e show ?thesis by blast
qed


section \<open>What the functions do where they are defined\<close>

lemma index_in_block:
  assumes "natoms s = BITS_TO_NATOMS (nbits s)" and "b < nbits s"
  shows "unat (b div BITS_PER_ATOM) < unat (natoms s)"
proof -
  from assms(2) have "unat b + 64 \<le> unat (nbits s) + 63"
    by (simp add: word_less_nat_alt)
  then have "(unat b + 64) div 64 \<le> (unat (nbits s) + 63) div 64"
    by (rule div_le_mono)
  then have "unat b div 64 < (unat (nbits s) + 63) div 64" by simp
  then show ?thesis
    by (simp add: assms(1) unat_BITS_TO_NATOMS BITS_PER_ATOM_def unat_div)
qed

text \<open>The three single-bit functions on an index whose bit 6 is clear.\<close>

lemma bitset_set_defined:
  assumes "structs m bs = Some s" "bits s = Some p" "blocks m p = Some buf"
    and "b < nbits s" "unat (b div BITS_PER_ATOM) < length buf" "b AND BITS_PER_ATOM = 0"
  shows "bitset_set m bs b =
           Inr (m\<lparr>blocks := (blocks m)(p \<mapsto> buf[unat (b div BITS_PER_ATOM) :=
                                            buf ! unat (b div BITS_PER_ATOM) OR 1])\<rparr>)"
  using assms by (simp add: bitset_set_def c_defs)

lemma bitset_unset_defined:
  assumes "structs m bs = Some s" "bits s = Some p" "blocks m p = Some buf"
    and "b < nbits s" "unat (b div BITS_PER_ATOM) < length buf" "b AND BITS_PER_ATOM = 0"
  shows "bitset_unset m bs b =
           Inr (m\<lparr>blocks := (blocks m)(p \<mapsto> buf[unat (b div BITS_PER_ATOM) :=
                                            buf ! unat (b div BITS_PER_ATOM) AND - 2])\<rparr>)"
  using assms by (simp add: bitset_unset_def c_defs)

lemma bitset_get_defined:
  assumes "structs m bs = Some s" "bits s = Some p" "blocks m p = Some buf"
    and "b < nbits s" "unat (b div BITS_PER_ATOM) < length buf" "b AND BITS_PER_ATOM = 0"
  shows "bitset_get m bs b = Inr (ucast (buf ! unat (b div BITS_PER_ATOM) AND 1))"
  using assms by (simp add: bitset_get_def c_defs)

lemma ucast_and_1_or: "(ucast ((w OR 1) AND (1 :: 64 word)) :: 8 word) = 1"
  by (simp add: bit_eq_iff bit_simps) 

lemma ucast_and_1_and: "(ucast ((w AND - 2) AND (1 :: 64 word)) :: 8 word) = 0"
proof -
  have "(- 2 :: 64 word) AND 1 = 0" by simp
  then have "(w AND - 2) AND 1 = 0" by (simp add: and.assoc)
  then show ?thesis by simp
qed


lemma ucast_and_1_cases: "(ucast (w AND (1 :: 64 word)) :: 8 word) = 0 \<or> (ucast (w AND (1 :: 64 word)) :: 8 word) = 1"
proof -
  have "w AND 1 = 0 \<or> w AND 1 = 1" by (simp add: and_one_eq mod_2_eq_odd)
  then show ?thesis by auto
qed

text \<open>
  Where the index has bit 6 clear, setting a bit and reading it gives 1, clearing it and
  reading it gives 0, and \<^verbatim>\<open>bitset_set_bit\<close> flips what \<^verbatim>\<open>bitset_get\<close> returns, whatever
  value it is given.
\<close>

lemma single_bit_round_trip:
  assumes "initialized m bs" "structs m bs = Some s" "b < nbits s" "b AND BITS_PER_ATOM = 0"
  shows "fbind (bitset_set m bs b) (\<lambda>m'. bitset_get m' bs b) = Inr 1"
    and "fbind (bitset_unset m bs b) (\<lambda>m'. bitset_get m' bs b) = Inr 0"
    and "bitset_get m bs b = Inr 0 \<or> bitset_get m bs b = Inr 1"
    and "fbind (bitset_set_bit m bs b v) (\<lambda>m'. bitset_get m' bs b) =
           (if bitset_get m bs b = Inr 0 then Inr 1 else Inr 0)"
proof -
  from assms(1,2) obtain p buf where
    p: "bits s = Some p" "blocks m p = Some buf" "length buf = unat (natoms s)"
    and n: "natoms s = BITS_TO_NATOMS (nbits s)"
    by (auto elim!: initializedE)
  let ?k = "unat (b div BITS_PER_ATOM)"
  have k: "?k < length buf" using index_in_block [OF n assms(3)] p(3) by simp
  let ?set = "m\<lparr>blocks := (blocks m)(p \<mapsto> buf[?k := buf ! ?k OR 1])\<rparr>"
  let ?unset = "m\<lparr>blocks := (blocks m)(p \<mapsto> buf[?k := buf ! ?k AND - 2])\<rparr>"
  have set: "bitset_set m bs b = Inr ?set"
    by (rule bitset_set_defined [OF assms(2) p(1,2) assms(3) k assms(4)])
  have unset: "bitset_unset m bs b = Inr ?unset"
    by (rule bitset_unset_defined [OF assms(2) p(1,2) assms(3) k assms(4)])
  have get: "bitset_get m bs b = Inr (ucast (buf ! ?k AND 1))"
    by (rule bitset_get_defined [OF assms(2) p(1,2) assms(3) k assms(4)])
  have get_set: "bitset_get ?set bs b = Inr 1"
    using bitset_get_defined [of ?set bs s p "buf[?k := buf ! ?k OR 1]" b] assms p k
    by (simp add: ucast_and_1_or)
  have get_unset: "bitset_get ?unset bs b = Inr 0"
    using bitset_get_defined [of ?unset bs s p "buf[?k := buf ! ?k AND - 2]" b] assms p k
    by (simp add: ucast_and_1_and)
  show "fbind (bitset_set m bs b) (\<lambda>m'. bitset_get m' bs b) = Inr 1"
    by (simp add: set get_set)
  show "fbind (bitset_unset m bs b) (\<lambda>m'. bitset_get m' bs b) = Inr 0"
    by (simp add: unset get_unset)
  show "bitset_get m bs b = Inr 0 \<or> bitset_get m bs b = Inr 1"
    using ucast_and_1_cases [of "buf ! ?k"] by (simp add: get)
  show "fbind (bitset_set_bit m bs b v) (\<lambda>m'. bitset_get m' bs b) =
          (if bitset_get m bs b = Inr 0 then Inr 1 else Inr 0)"
    using ucast_and_1_cases [of "buf ! ?k"]
    by (auto simp: bitset_set_bit_def get set unset get_set get_unset)
qed


text \<open>What a successful \<^verbatim>\<open>bitset_init\<close> leaves: a zeroed block of \<^verbatim>\<open>natoms\<close> atoms.\<close>

lemma bitset_init_success:
  assumes "structs m bs = Some s0"
  shows "bitset_init (Malloc_At p junk) m bs n =
           Inr (0, m\<lparr>structs := (structs m)(bs \<mapsto> \<lparr>nbits = n, natoms = BITS_TO_NATOMS n, bits = Some p\<rparr>),
                     blocks := (blocks m)(p \<mapsto> replicate (unat (BITS_TO_NATOMS n)) 0)\<rparr>)"
  using assms
  by (simp add: bitset_init_def deref_def libc_malloc_def libc_memset_zero_def block_of_def
        BITS_TO_NATOMS_bytes Let_def)

lemma bitset_init_initialized:
  assumes "bitset_init r m bs n = Inr (0, m')"
  shows "initialized m' bs"
proof -
  from assms obtain s0 where s0: "structs m bs = Some s0"
    by (auto simp: bitset_init_def deref_def fbind_Inr_iff split: option.splits)
  show ?thesis
  proof (cases r)
    case Malloc_Null
    with assms s0 show ?thesis
      by (simp add: bitset_init_def deref_def libc_malloc_def)
  next
    case (Malloc_At p junk)
    with assms bitset_init_success [OF s0, of p junk n] show ?thesis
      by (auto simp: initialized_def block_of_def)
  qed
qed

lemma bitset_atom_popcnt_0: "bitset_atom_popcnt 0 = 0"
  by (simp add: bitset_atom_popcnt_def)

lemma popcnt_loop_zero_block:
  assumes "bits s = Some p" "blocks m p = Some (replicate (unat (natoms s)) 0)"
  shows "popcnt_loop m s i acc = Inr acc"
  using assms
proof (induction m s i acc rule: popcnt_loop.induct)
  case (1 m s i acc)
  show ?case
  proof (cases "i < natoms s")
    case True
    then have l: "load m (bits s) i = Inr 0"
      using "1.prems" by (simp add: load_def block_of_def word_less_nat_alt)
    from "1.IH" [OF True l "1.prems"] True l show ?thesis
      by (subst popcnt_loop.simps) (simp add: bitset_atom_popcnt_0 int_to_atom_def)
  next
    case False
    then show ?thesis by (subst popcnt_loop.simps) simp
  qed
qed

text \<open>\<^verbatim>\<open>bitset_popcnt\<close> of a bitset just initialized is 0.\<close>

lemma bitset_popcnt_fresh:
  assumes "bitset_init r m bs n = Inr (0, m')"
  shows "bitset_popcnt m' bs = Inr 0"
proof -
  from assms obtain s0 where s0: "structs m bs = Some s0"
    by (auto simp: bitset_init_def deref_def fbind_Inr_iff split: option.splits)
  show ?thesis
  proof (cases r)
    case Malloc_Null
    with assms s0 show ?thesis
      by (simp add: bitset_init_def deref_def libc_malloc_def)
  next
    case (Malloc_At p junk)
    with assms bitset_init_success [OF s0, of p junk n]
    have m': "m' = m\<lparr>structs := (structs m)(bs \<mapsto> \<lparr>nbits = n, natoms = BITS_TO_NATOMS n, bits = Some p\<rparr>),
                     blocks := (blocks m)(p \<mapsto> replicate (unat (BITS_TO_NATOMS n)) 0)\<rparr>"
      by simp
    show ?thesis
      by (simp add: bitset_popcnt_def deref_def m' popcnt_loop_zero_block)
  qed
qed

text \<open>
  What a successful \<^verbatim>\<open>bitset_resize\<close> leaves: the old atoms at their indices, and in
  the added atoms whatever \<^verbatim>\<open>realloc\<close> left there.
\<close>

lemma bitset_resize_success:
  assumes "structs m bs = Some s" "bits s = Some p" "blocks m p = Some old"
  shows "bitset_resize (Realloc_At q junk) m bs n =
           Inr (0, m\<lparr>structs := (structs m)(bs \<mapsto> \<lparr>nbits = n, natoms = BITS_TO_NATOMS n, bits = Some q\<rparr>),
                     blocks := ((blocks m)(p := None))
                       (q \<mapsto> map (\<lambda>i. if i < length old then old ! i else junk i)
                                [0..<unat (BITS_TO_NATOMS n)])\<rparr>)"
  using assms
  by (simp add: bitset_resize_def deref_def libc_realloc_def block_of_def release_def
        BITS_TO_NATOMS_bytes Let_def)

lemma bitset_resize_keeps_atoms:
  assumes "structs m bs = Some s" "bits s = Some p" "blocks m p = Some old"
    and "bitset_resize (Realloc_At q junk) m bs n = Inr (rc, m')"
    and "i < length old" "i < unat (BITS_TO_NATOMS n)"
  shows "\<exists>new. blocks m' q = Some new \<and> length new = unat (BITS_TO_NATOMS n) \<and> new ! i = old ! i"
  using assms(4-) unfolding bitset_resize_success [OF assms(1-3)] by auto


text \<open>
  The scanning loop stops at the first non-zero atom when there is one below
  \<^verbatim>\<open>natoms\<close>.
\<close>

lemma skip_zero_atoms_finds:
  assumes "bits s = Some p" "blocks m p = Some buf"
    and "j < length buf" "j < unat (natoms s)" "buf ! j \<noteq> 0"
    and "\<forall>i. unat atom \<le> i \<and> i < j \<longrightarrow> buf ! i = 0" "unat atom \<le> j"
  shows "skip_zero_atoms m s atom = Inr (of_nat j)"
  using assms
proof (induction m s atom rule: skip_zero_atoms.induct)
  case (1 m s atom)
  show ?case
  proof (cases "unat atom = j")
    case True
    then have "load m (bits s) atom = Inr (buf ! j)"
      using "1.prems" by (simp add: load_def block_of_def)
    moreover have "of_nat j = atom" using True by auto
    ultimately show ?thesis using "1.prems"(5)
      by (subst skip_zero_atoms.simps) simp
  next
    case False
    with "1.prems"(7) have lt: "unat atom < j" by simp
    then have l: "load m (bits s) atom = Inr 0"
      using "1.prems" by (simp add: load_def block_of_def)
    have a: "atom < natoms s" using lt "1.prems"(4) by (simp add: word_less_nat_alt)
    have u: "unat (atom + 1) = Suc (unat atom)" by (rule unat_succ_less [OF a])
    have "skip_zero_atoms m s (atom + 1) = Inr (of_nat j)"
      using "1.prems" lt u by (intro "1.IH" [OF l]) (simp_all add: a)
    with l a show ?thesis by (subst skip_zero_atoms.simps) simp
  qed
qed

text \<open>
  When every atom from \<open>atom\<close> up to \<^verbatim>\<open>natoms\<close> is zero the loop goes on to read the
  atom at index \<^verbatim>\<open>natoms\<close>. That read is past the end of a block of \<^verbatim>\<open>natoms\<close> atoms;
  in a longer block it finds some atom, and the loop stops there whatever it holds.
\<close>

lemma skip_zero_atoms_all_zero:
  assumes "bits s = Some p" "blocks m p = Some buf"
    and "unat (natoms s) \<le> length buf"
    and "\<forall>i. unat atom \<le> i \<and> i < unat (natoms s) \<longrightarrow> buf ! i = 0" "atom \<le> natoms s"
  shows "skip_zero_atoms m s atom =
           (if unat (natoms s) < length buf then Inr (natoms s) else Inl Out_Of_Bounds)"
  using assms
proof (induction m s atom rule: skip_zero_atoms.induct)
  case (1 m s atom)
  show ?case
  proof (cases "atom = natoms s")
    case True
    with "1.prems" show ?thesis
      by (subst skip_zero_atoms.simps) (simp add: load_def block_of_def)
  next
    case False
    with "1.prems"(5) have a: "atom < natoms s" by simp
    then have lt: "unat atom < unat (natoms s)" by (simp add: word_less_nat_alt)
    then have l: "load m (bits s) atom = Inr 0"
      using "1.prems" by (simp add: load_def block_of_def)
    have u: "unat (atom + 1) = Suc (unat atom)" by (rule unat_succ_less [OF a])
    have le: "atom + 1 \<le> natoms s" using lt u by (simp add: word_le_nat_alt)
    have "skip_zero_atoms m s (atom + 1) =
            (if unat (natoms s) < length buf then Inr (natoms s) else Inl Out_Of_Bounds)"
      using "1.prems" u le by (intro "1.IH" [OF l]) (simp_all add: a)
    with l a show ?thesis by (subst skip_zero_atoms.simps) simp
  qed
qed

text \<open>
  On an initialized bitset whose storage words are all zero, \<^verbatim>\<open>bitset_first_set\<close>
  always reads past the end of the block.
\<close>

lemma bitset_first_set_all_zero:
  assumes "structs m bs = Some s" "bits s = Some p"
    and "blocks m p = Some (replicate (unat (natoms s)) 0)"
  shows "bitset_first_set m bs = Inl Out_Of_Bounds"
  using skip_zero_atoms_all_zero [OF assms(2,3), of 0] assms(1)
  by (simp add: bitset_first_set_def deref_def)

text \<open>
  Were the block one atom longer than \<^verbatim>\<open>natoms\<close>, the same scan would return -1.
\<close>

lemma bitset_first_set_all_zero_slack:
  assumes "structs m bs = Some s" "bits s = Some p"
    and "blocks m p = Some (replicate (unat (natoms s)) 0 @ [w])"
  shows "bitset_first_set m bs = Inr (- 1)"
  using skip_zero_atoms_all_zero [OF assms(2,3), of 0] assms(1)
  by (simp add: bitset_first_set_def deref_def scan_result_def nth_append)


lemma scast_of_nat_small: "r < 64 \<Longrightarrow> (scast (of_nat r :: 32 word) :: 64 word) = of_nat r"
proof -
  assume r: "r < 64"
  have b: "- (2 ^ 31) \<le> int r" "int r < 2 ^ 31" using r by simp_all
  have "signed_take_bit 31 (int r) = int r"
    using b by (simp add: signed_take_bit_int_eq_self)
  then show ?thesis by (simp add: signed_of_nat)
qed

lemma ucast_of_nat_64_32: "(ucast (of_nat n :: 64 word) :: 32 word) = of_nat n"
  by (simp add: unsigned_of_nat word_of_nat_eq_iff min_def)

lemma takeWhile_upt_first:
  assumes "r < n" "\<not> P r" "\<forall>i<r. P i"
  shows "takeWhile P [0..<n] = [0..<r]"
proof -
  have "[0..<n] = [0..<r] @ r # [Suc r..<n]"
    using assms(1) by (metis le_add_diff_inverse less_imp_le_nat upt_add_eq_append upt_conv_Cons zero_le)
  then have "takeWhile P [0..<n] = takeWhile P [0..<r]"
    using assms(2) by (simp add: takeWhile_tail)
  also have "\<dots> = [0..<r]" using assms(3) by simp
  finally show ?thesis .
qed

text \<open>The builtin finds the lowest set bit.\<close>

lemma bitset_atom_ctz_lowest:
  assumes "bit w r" "\<forall>i<r. \<not> bit w i"
  shows "bitset_atom_ctz w = Inr (of_nat r)"
proof -
  from assms(1) have r: "r < 64" using bit_imp_le_length [of w r] by simp
  from assms(1) have "w \<noteq> 0" by auto
  moreover have "takeWhile (\<lambda>i. \<not> bit w i) [0..<64] = [0..<r]"
    using r assms by (intro takeWhile_upt_first) simp_all
  ultimately show ?thesis by (simp add: bitset_atom_ctz_def)
qed

text \<open>
  When some storage bit below \<open>64 * natoms\<close> is set, \<^verbatim>\<open>bitset_first_set\<close> returns the
  index of the lowest one, as far as an \<^verbatim>\<open>int\<close> holds it.
\<close>

lemma bitset_first_set_finds:
  assumes "structs m bs = Some s" "bits s = Some p" "blocks m p = Some buf"
    and "storage_bit buf k" "k div 64 < unat (natoms s)" "\<forall>i<k. \<not> storage_bit buf i"
  shows "bitset_first_set m bs = Inr (of_nat k)"
proof -
  let ?j = "k div 64" and ?r = "k mod 64"
  from assms(4) have j: "?j < length buf" and b: "bit (buf ! ?j) ?r"
    by (simp_all add: storage_bit_def)
  have low: "\<not> bit (buf ! ?j) t" if "t < ?r" for t
  proof -
    have "?j * 64 + t < k" using that by (metis add_less_cancel_left div_mult_mod_eq)
    moreover have "(?j * 64 + t) div 64 = ?j" "(?j * 64 + t) mod 64 = t"
      using that by simp_all
    ultimately show ?thesis using assms(6) j by (auto simp: storage_bit_def)
  qed
  have zero: "buf ! i = 0" if "i < ?j" for i
  proof (rule bit_word_eqI)
    fix t assume t: "t < LENGTH(64)"
    have "i * 64 + t < k"
    proof -
      have "i * 64 + t < Suc i * 64" using t by simp
      also have "\<dots> \<le> ?j * 64" using that by (simp add: Suc_leI)
      also have "\<dots> \<le> k" by simp
      finally show ?thesis .
    qed
    moreover have "(i * 64 + t) div 64 = i" "(i * 64 + t) mod 64 = t" using t by simp_all
    moreover have "i < length buf" using that j by simp
    ultimately show "bit (buf ! i) t = bit (0 :: 64 word) t"
      using assms(6) by (auto simp: storage_bit_def)
  qed
  have nz: "buf ! ?j \<noteq> 0" using b by auto
  have skip: "skip_zero_atoms m s 0 = Inr (of_nat ?j)"
    using zero by (intro skip_zero_atoms_finds [OF assms(2,3) j assms(5) nz]) simp_all
  have uj: "unat (of_nat ?j :: 64 word) = ?j"
    using assms(5) by (intro le_unat_uoi [of _ "natoms s"]) simp
  have ne: "(of_nat ?j :: 64 word) \<noteq> natoms s" using assms(5) uj by auto
  have ld: "load m (bits s) (of_nat ?j) = Inr (buf ! ?j)"
    using assms(2,3) j by (simp add: load_def block_of_def uj)
  have ctz: "bitset_atom_ctz (buf ! ?j) = Inr (of_nat ?r)"
    using b low by (intro bitset_atom_ctz_lowest) simp_all
  have e: "?j * 64 + ?r = k" by simp
  have "(of_nat (?j * 64 + ?r) :: 64 word) = of_nat ?j * 64 + of_nat ?r"
    by (simp only: of_nat_add of_nat_mult of_nat_numeral)
  then have "(of_nat ?j :: 64 word) * 64 + of_nat ?r = of_nat k" by (simp only: e)
  then have "(of_nat ?j :: 64 word) * BITS_PER_ATOM + int_to_atom (of_nat ?r) = of_nat k"
    by (simp add: BITS_PER_ATOM_def int_to_atom_def scast_of_nat_small)
  then have "scan_result m s (of_nat ?j) = Inr (of_nat k)"
    using ne ld ctz by (simp add: scan_result_def ucast_of_nat_64_32)
  then show ?thesis
    by (simp add: bitset_first_set_def deref_def assms(1) skip)
qed


lemma scast_of_nat_le64: "r \<le> 64 \<Longrightarrow> (scast (of_nat r :: 32 word) :: 64 word) = of_nat r"
proof -
  assume r: "r \<le> 64"
  have b: "- (2 ^ 31) \<le> int r" "int r < 2 ^ 31" using r by simp_all
  have "signed_take_bit 31 (int r) = int r"
    using b by (simp add: signed_take_bit_int_eq_self)
  then show ?thesis by (simp add: signed_of_nat)
qed

lemma int_to_atom_popcnt: "int_to_atom (bitset_atom_popcnt w) = of_nat (ones w)"
proof -
  have "ones w \<le> 64" unfolding ones_def using length_filter_le [of "bit w" "[0..<64]"] by simp
  then show ?thesis
    by (simp add: int_to_atom_def bitset_atom_popcnt_def scast_of_nat_le64 flip: ones_def)
qed

text \<open>
  \<^verbatim>\<open>bitset_popcnt\<close> adds up the 1-bits of the \<^verbatim>\<open>natoms\<close> storage words, in a
  \<^verbatim>\<open>size_t\<close>.
\<close>

lemma popcnt_loop_sum:
  assumes "bits s = Some p" "blocks m p = Some buf" "unat (natoms s) \<le> length buf"
  shows "popcnt_loop m s i acc =
           Inr (acc + of_nat (sum_list (map ones (drop (unat i) (take (unat (natoms s)) buf)))))"
  using assms
proof (induction m s i acc rule: popcnt_loop.induct)
  case (1 m s i acc)
  let ?n = "unat (natoms s)"
  show ?case
  proof (cases "i < natoms s")
    case True
    then have lt: "unat i < ?n" by (simp add: word_less_nat_alt)
    then have l: "load m (bits s) i = Inr (buf ! unat i)"
      using "1.prems" by (simp add: load_def block_of_def)
    have u: "unat (i + 1) = Suc (unat i)" by (rule unat_succ_less [OF True])
    have d: "drop (unat i) (take ?n buf) = buf ! unat i # drop (Suc (unat i)) (take ?n buf)"
      using lt "1.prems"(3) by (simp add: Cons_nth_drop_Suc [symmetric])
    from "1.IH" [OF True l "1.prems"] True l show ?thesis
      by (subst popcnt_loop.simps) (simp add: int_to_atom_popcnt u d add.assoc)
  next
    case False
    then have "?n \<le> unat i" by (simp add: word_less_nat_alt)
    with False show ?thesis by (subst popcnt_loop.simps) simp
  qed
qed

lemma bitset_popcnt_sum:
  assumes "initialized m bs" "structs m bs = Some s" "bits s = Some p" "blocks m p = Some buf"
  shows "bitset_popcnt m bs = Inr (of_nat (sum_list (map ones buf)))"
proof -
  from assms have "length buf = unat (natoms s)" by (auto elim!: initializedE)
  then show ?thesis
    using popcnt_loop_sum [OF assms(3,4), of 0 0] by (simp add: bitset_popcnt_def deref_def assms(2))
qed


section \<open>Runs of the library that leave its contract\<close>

lemmas ev = api_defs c_defs blank_def one_bitset_def upt_rec replicate_3

text \<open>
  C1: \<^verbatim>\<open>bitset_set_bit(bs, idx, v)\<close> is to leave bit \<open>idx\<close> equal to \<open>v\<close>. It does not:
  the function never reads \<open>v\<close> and flips the bit. On a bitset of one bit just
  initialized (bit 0 is 0), \<^verbatim>\<open>bitset_set_bit(bs, 0, 0)\<close> leaves bit 0 reading 1. With the
  header's inline definitions, where \<^verbatim>\<open>bitset_get\<close> sets the bit it reads,
  \<^verbatim>\<open>bitset_set_bit(bs, 0, 1)\<close> on a set bit leaves it reading 0.
\<close>

theorem bitset_set_bit_toggles:
  "fbind (bitset_init (Malloc_At 7 (\<lambda>_. 0)) blank 0 1) (\<lambda>(rc, m).
   fbind (bitset_set_bit m 0 0 0) (\<lambda>m'. bitset_get m' 0 0)) = Inr 1 \<and>
   fbind (bitset_init (Malloc_At 7 (\<lambda>_. 0)) blank 0 1) (\<lambda>(rc, m).
   fbind (bitset_set m 0 0) (\<lambda>m1.
   fbind (bitset_set_bit_inline m1 0 0 1) (\<lambda>m'. bitset_get m' 0 0))) = Inr 0"
  by (simp add: ev)

text \<open>
  C2: \<^verbatim>\<open>bitset_next_set(bs, from)\<close> is to return the smallest set index at or after
  \<open>from\<close>, and -1 when there is none. On a bitset of 129 bits whose only set bit is
  bit 128, \<^verbatim>\<open>bitset_next_set(bs, 128)\<close> returns 129 and not 128, and
  \<^verbatim>\<open>bitset_next_set(bs, 129)\<close> returns 129 and not -1: the first \<^verbatim>\<open>return\<close> counts the
  trailing zeros of the atom's index 2, not of the masked atom.
\<close>

theorem bitset_next_set_wrong_index:
  "fbind (bitset_init (Malloc_At 7 (\<lambda>_. 0)) blank 0 129) (\<lambda>(rc, m).
   fbind (bitset_set m 0 128) (\<lambda>m'. bitset_next_set m' 0 128)) = Inr 129 \<and>
   fbind (bitset_init (Malloc_At 7 (\<lambda>_. 0)) blank 0 129) (\<lambda>(rc, m).
   fbind (bitset_set m 0 128) (\<lambda>m'. bitset_next_set m' 0 129)) = Inr 129"
  by (simp add: ev bitset_atom_ctz_def)

text \<open>
  C3: \<^verbatim>\<open>bitset_set(bs, i)\<close> followed by \<^verbatim>\<open>bitset_get(bs, i)\<close> is to return 1, and
  \<^verbatim>\<open>bitset_unset\<close> followed by \<^verbatim>\<open>bitset_get\<close> is to return 0, for every \<open>i\<close> below the
  capacity. On a bitset of 65 bits and \<open>i = 64\<close> none of the three calls is defined:
  the shift count \<^verbatim>\<open>bit & BITS_PER_ATOM\<close> is 64, as wide as the \<^verbatim>\<open>uint64_t\<close> that
  \<^verbatim>\<open>bitset_get\<close> shifts and wider than the \<^verbatim>\<open>int\<close> that \<^verbatim>\<open>bitset_set\<close> and
  \<^verbatim>\<open>bitset_unset\<close> shift.
\<close>

theorem bitset_set_shift_undefined:
  "fbind (bitset_init (Malloc_At 7 (\<lambda>_. 0)) blank 0 65) (\<lambda>(rc, m). bitset_set m 0 64)
     = Inl Bad_Shift \<and>
   fbind (bitset_init (Malloc_At 7 (\<lambda>_. 0)) blank 0 65) (\<lambda>(rc, m). bitset_unset m 0 64)
     = Inl Bad_Shift \<and>
   fbind (bitset_init (Malloc_At 7 (\<lambda>_. 0)) blank 0 65) (\<lambda>(rc, m). bitset_get m 0 64)
     = Inl Bad_Shift"
  by (simp add: ev)

text \<open>
  C4: \<^verbatim>\<open>bitset_get\<close> is to return 0 or 1 and to change nothing. The inline definition
  in \<^verbatim>\<open>bitset.h\<close> writes: on a bitset of one bit just initialized, whose block is
  \<open>[0]\<close>, the call \<^verbatim>\<open>bitset_get(bs, 0)\<close> returns 1 and leaves the block \<open>[1]\<close>. The
  definition in the C file writes nothing, but on a bitset of 65 bits the call
  \<^verbatim>\<open>bitset_get(bs, 64)\<close> shifts a \<^verbatim>\<open>uint64_t\<close> by 64 and returns nothing defined.
\<close>

theorem bitset_get_inline_writes:
  "fbind (bitset_init (Malloc_At 7 (\<lambda>_. 0)) blank 0 1) (\<lambda>(rc, m).
   fbind (bitset_get_inline m 0 0) (\<lambda>(g, m'). Inr (g, blocks m 7, blocks m' 7)))
     = Inr (1, Some [0], Some [1]) \<and>
   fbind (bitset_init (Malloc_At 7 (\<lambda>_. 0)) blank 0 65) (\<lambda>(rc, m). bitset_get m 0 64)
     = Inl Bad_Shift"
  by (simp add: ev)

text \<open>
  C5: \<^verbatim>\<open>bitset_first_set\<close> is to return -1 on a bitset whose storage words are all
  zero, a bitset of capacity 0 included. On a bitset of one bit just initialized the scan
  reads \<^verbatim>\<open>bs->bits[1]\<close>, one atom past the end of the block, and on a bitset of capacity 0
  it reads \<^verbatim>\<open>bs->bits[0]\<close> of a block of no atom: the loop tests the atom before it tests
  the index.
\<close>

theorem bitset_first_set_reads_past_end:
  "fbind (bitset_init (Malloc_At 7 (\<lambda>_. 0)) blank 0 1) (\<lambda>(rc, m). bitset_first_set m 0)
     = Inl Out_Of_Bounds \<and>
   fbind (bitset_init (Malloc_At 7 (\<lambda>_. 0)) blank 0 0) (\<lambda>(rc, m). bitset_first_set m 0)
     = Inl Out_Of_Bounds"
  by (simp add: ev skip_zero_atoms.simps)

text \<open>
  C6: after a successful \<^verbatim>\<open>bitset_resize\<close> to a larger capacity the new indices are to
  read 0. Growing a zeroed bitset from 128 to 192 bits, with \<^verbatim>\<open>realloc\<close> handing out a
  block whose new atom holds 1, both calls return 0 (success) and
  \<^verbatim>\<open>bitset_get(bs, 128)\<close> returns 1: nothing zeroes the new atom.
\<close>

theorem bitset_resize_keeps_junk:
  "fbind (bitset_init (Malloc_At 7 (\<lambda>_. 0)) blank 0 128) (\<lambda>(rc, m).
   fbind (bitset_resize (Realloc_At 8 (\<lambda>_. 1)) m 0 192) (\<lambda>(rc', m').
   fbind (bitset_get m' 0 128) (\<lambda>g. Inr (rc, rc', g)))) = Inr (0, 0, 1)"
  by (simp add: ev)

text \<open>
  C7: \<^verbatim>\<open>bitset_popcnt\<close> is to equal the number of indices below \<^verbatim>\<open>nbits\<close> at which
  \<^verbatim>\<open>bitset_get\<close> returns 1, when the padding bits are zero. On a bitset of 2 bits, after
  \<^verbatim>\<open>bitset_set(bs, 0)\<close> the block is \<open>[1]\<close> (padding zero) and \<^verbatim>\<open>bitset_popcnt\<close> returns
  1, while \<^verbatim>\<open>bitset_get\<close> returns 1 at both indices 0 and 1: it reads bit 0 of the atom
  whatever the index.
\<close>

theorem bitset_popcnt_differs_from_get:
  "fbind (bitset_init (Malloc_At 7 (\<lambda>_. 0)) blank 0 2) (\<lambda>(rc, m).
   fbind (bitset_set m 0 0) (\<lambda>m'.
   fbind (bitset_popcnt m' 0) (\<lambda>c. Inr (c, count_get_ones m' 0, blocks m' 7))))
     = Inr (1, 2, Some [1])"
  by (simp add: ev popcnt_loop.simps bitset_atom_popcnt_def count_get_ones_def)

text \<open>
  What a call of \<^verbatim>\<open>bitset_resize\<close> that returns non-zero leaves. When \<^verbatim>\<open>realloc\<close> cannot
  allocate, it answers \<^verbatim>\<open>NULL\<close> and keeps the old block, and the memory is as before.
\<close>

lemma bitset_resize_null_unchanged:
  assumes "initialized m bs"
  shows "bitset_resize Realloc_Null m bs n = Inr (- 1, m)"
proof -
  from assms obtain s p buf where
    s: "structs m bs = Some s" "bits s = Some p" "blocks m p = Some buf"
    by (rule initializedE)
  then show ?thesis
    by (simp add: bitset_resize_def deref_def libc_realloc_def block_of_def)
qed

text \<open>
  A C library that answers a request for zero bytes by freeing the block and returning
  \<^verbatim>\<open>NULL\<close> makes \<^verbatim>\<open>bitset_resize(bs, 0)\<close> return -1 as well, with the struct unchanged and
  its block gone.
\<close>

lemma bitset_resize_zero_freed:
  assumes "structs m bs = Some s" "bits s = Some p" "blocks m p = Some buf"
  shows "bitset_resize Realloc_Freed m bs 0 = Inr (- 1, m\<lparr>blocks := (blocks m)(p := None)\<rparr>)"
  using assms
  by (simp add: bitset_resize_def deref_def libc_realloc_def block_of_def release_def
        BITS_TO_NATOMS_def BITS_PER_ATOM_def)

text \<open>
  These are the only two outcomes of a call that returns non-zero: either the memory is
  unchanged, or the request was for zero bytes and the block has been freed.
\<close>

lemma bitset_resize_failure_cases:
  assumes "bitset_resize r m bs n = Inr (rc, m')" and "rc \<noteq> 0"
  shows "m' = m \<or>
         (r = Realloc_Freed \<and> BITS_TO_NATOMS n * sizeof_atom = 0 \<and>
          (\<exists>s. structs m bs = Some s \<and> m' = m\<lparr>blocks := release (bits s) (blocks m)\<rparr>))"
proof -
  from assms(1) obtain s :: bitset_t and va where
    s: "deref m bs = Inr s"
    and r: "libc_realloc r m (bits s) (BITS_TO_NATOMS n * sizeof_atom) = Inr va"
    and c: "(case va of (new_bits, m1) \<Rightarrow>
               if new_bits = None then Inr (- 1, m1)
               else Inr (0, m1\<lparr>structs := (structs m1)
                      (bs \<mapsto> \<lparr>nbits = n, natoms = BITS_TO_NATOMS n, bits = new_bits\<rparr>)\<rparr>))
            = (Inr (rc, m') :: fault + c_int \<times> mem)"
    unfolding bitset_resize_def fbind_Inr_iff Let_def by blast
  obtain q m1 where va: "va = (q, m1)" by (cases va)
  from c assms(2) have q: "q = None" "m1 = m'" by (auto simp: va split: if_splits)
  from s have ss: "structs m bs = Some s" by (auto simp: deref_def split: option.splits)
  from r show ?thesis
    unfolding va q by (cases r) (auto simp: libc_realloc_def fbind_Inr_iff ss split: if_splits)
qed

text \<open>
  C8: when \<^verbatim>\<open>bitset_resize\<close> fails, for whatever requested capacity, it is to return
  non-zero and to leave \<^verbatim>\<open>nbits\<close>, \<^verbatim>\<open>natoms\<close> and every storage word as they were. The
  function takes every \<^verbatim>\<open>NULL\<close> from \<^verbatim>\<open>realloc\<close> for a failure that kept the old block.
  For the requested capacity 0 the request is for zero bytes, and a C library may answer
  it by freeing the block and returning \<^verbatim>\<open>NULL\<close>: on a bitset of one bit just
  initialized, \<^verbatim>\<open>bitset_resize(bs, 0)\<close> then returns -1, the struct is as before, and the
  block with its storage word is gone, so that \<^verbatim>\<open>bitset_get(bs, 0)\<close> reads through a
  dangling pointer.
\<close>

theorem bitset_resize_zero_frees_block:
  "fbind (bitset_init (Malloc_At 7 (\<lambda>_. 0)) blank 0 1) (\<lambda>(rc, m).
   fbind (bitset_resize Realloc_Freed m 0 0) (\<lambda>(rc', m').
     Inr (rc, rc', structs m' 0 = structs m 0, blocks m 7, blocks m' 7, bitset_get m' 0 0)))
     = Inr (0, - 1, True, Some [0], None, Inl Bad_Pointer)"
  by (simp add: ev)

end
